theory Spec2Isabelle
  imports Main "HOL-Library.Word"
begin

section \<open>Data model\<close>

text \<open>
  The adapter in \<^verbatim>\<open>src/openclaw-provider.ts\<close> translates between the generic
  language-model interface and the vendor's \<^verbatim>\<open>/responses\<close> contract. The definitions
  below follow that file function by function. JavaScript strings are \<open>string\<close>, values
  that may be \<^verbatim>\<open>undefined\<close> or \<^verbatim>\<open>null\<close> are \<open>option\<close>, local variables that the
  source mutates are fields of an explicit state, and \<^verbatim>\<open>controller.enqueue\<close> is a list of
  emitted events.
\<close>

subsection \<open>JSON values\<close>

text \<open>
  Payloads the adapter only passes on or serializes (raw chunks, tool results). Numbers
  are restricted to integers; the adapter never computes with them.
\<close>

datatype json =
    JNull
  | JBool bool
  | JNumber int
  | JString string
  | JArray "json list"
  | JObject "(string \<times> json) list"

subsection \<open>Vendor response\<close>

text \<open>\<^verbatim>\<open>openclawUsageSchema\<close>: three non-negative integer counters.\<close>

record openclaw_usage =
  input_tokens :: nat
  output_tokens :: nat
  total_tokens :: nat

datatype item_status = ItemInProgress | ItemCompleted

text \<open>
  \<^verbatim>\<open>openclawOutputItemSchema\<close>, a union discriminated by \<^verbatim>\<open>type\<close>:
  \<^item> \<open>MessageItem id content status\<close>, the content being the texts of its
    \<^verbatim>\<open>output_text\<close> parts;
  \<^item> \<open>FunctionCallItem id call_id name arguments status\<close>;
  \<^item> \<open>ReasoningItem id content summary\<close>.
\<close>

datatype output_item =
    MessageItem string "string list" "item_status option"
  | FunctionCallItem string string string string "item_status option"
  | ReasoningItem string "string option" "string option"

text \<open>
  \<^verbatim>\<open>openclawResponseSchema\<close>. The status is kept as the string the wire carries
  (\<^verbatim>\<open>mapFinishReason\<close> compares and forwards it as a string); \<open>resp_error\<close> is the
  optional pair of code and message.
\<close>

record response =
  resp_id :: string
  created_at :: int
  status :: string
  model :: string
  resp_output :: "output_item list"
  resp_usage :: openclaw_usage
  resp_error :: "(string \<times> string) option"

text \<open>
  \<^verbatim>\<open>openclawStreamEventSchema\<close>, a union discriminated by \<^verbatim>\<open>type\<close>. The text events
  carry item id, output index, content index and the text; the item events carry
  output index and item; the content-part events carry the text of their part.
\<close>

datatype stream_event =
    ResponseCreated response
  | ResponseInProgress response
  | ResponseCompleted response
  | ResponseFailed response
  | OutputTextDelta string int int string
  | OutputTextDone string int int string
  | OutputItemAdded int output_item
  | OutputItemDone int output_item
  | ContentPartAdded string int int string
  | ContentPartDone string int int string

text \<open>
  What the event-source handler hands to \<^verbatim>\<open>transform\<close>: a chunk that passed the
  schema (\<^verbatim>\<open>success: true\<close>, with its value) or one that did not (with the validation
  error), each with the raw value it was parsed from.
\<close>

datatype parse_result =
    Success stream_event json
  | Failure string json

subsection \<open>Normalized results\<close>

record finish_reason =
  unified :: string
  raw :: string

record input_token_usage =
  input_total :: nat
  noCache :: nat
  cacheRead :: nat
  cacheWrite :: nat

record output_token_usage =
  output_total :: nat
  text_tokens :: nat
  reasoning_tokens :: nat

record usage =
  inputTokens :: input_token_usage
  outputTokens :: output_token_usage
  raw_usage :: openclaw_usage

text \<open>A warning \<^verbatim>\<open>{type: "unsupported", feature, details}\<close>.\<close>

datatype warning = Unsupported string "string option"

text \<open>Provider metadata \<^verbatim>\<open>{[provider]: {[key]: value}}\<close>.\<close>

datatype provider_metadata = ProviderMetadata string string string

type_synonym headers = "(string \<times> string) list option"

text \<open>
  The events of the normalized stream, one constructor per \<^verbatim>\<open>type\<close> that
  \<^verbatim>\<open>doStream\<close> enqueues. \<open>ResponseMetadata id timestamp modelId headers\<close> carries
  the timestamp in milliseconds; \<open>ToolCall toolCallId toolName input metadata\<close>.
\<close>

datatype stream_part =
    StreamStart "warning list"
  | RawChunk json
  | ErrorPart string
  | ResponseMetadata string int string headers
  | TextStart string
  | TextDelta string string
  | TextEnd string
  | ToolCall string string string provider_metadata
  | ReasoningStart string
  | ReasoningDelta string string
  | ReasoningEnd string
  | Finish usage finish_reason "provider_metadata option"

text \<open>The \<^verbatim>\<open>type\<close> field of an emitted event.\<close>

fun part_type :: "stream_part \<Rightarrow> string" where
  "part_type (StreamStart _) = ''stream-start''"
| "part_type (RawChunk _) = ''raw''"
| "part_type (ErrorPart _) = ''error''"
| "part_type (ResponseMetadata _ _ _ _) = ''response-metadata''"
| "part_type (TextStart _) = ''text-start''"
| "part_type (TextDelta _ _) = ''text-delta''"
| "part_type (TextEnd _) = ''text-end''"
| "part_type (ToolCall _ _ _ _) = ''tool-call''"
| "part_type (ReasoningStart _) = ''reasoning-start''"
| "part_type (ReasoningDelta _ _) = ''reasoning-delta''"
| "part_type (ReasoningEnd _) = ''reasoning-end''"
| "part_type (Finish _ _ _) = ''finish''"

section \<open>Response translation helpers\<close>

definition mapUsage :: "openclaw_usage \<Rightarrow> usage" where
  "mapUsage u =
     \<lparr> inputTokens = \<lparr> input_total = input_tokens u, noCache = input_tokens u,
                       cacheRead = 0, cacheWrite = 0 \<rparr>,
       outputTokens = \<lparr> output_total = output_tokens u, text_tokens = output_tokens u,
                        reasoning_tokens = 0 \<rparr>,
       raw_usage = u \<rparr>"

text \<open>\<^verbatim>\<open>mapFinishReason({ status, sawToolCall })\<close>: the guard first, then the switch.\<close>

definition mapFinishReason :: "string \<Rightarrow> bool \<Rightarrow> finish_reason" where
  "mapFinishReason st sawToolCall =
     (if sawToolCall \<or> st = ''incomplete'' then \<lparr> unified = ''tool-calls'', raw = ''tool_calls'' \<rparr>
      else if st = ''completed'' then \<lparr> unified = ''stop'', raw = ''completed'' \<rparr>
      else if st = ''failed'' then \<lparr> unified = ''error'', raw = ''failed'' \<rparr>
      else \<lparr> unified = ''other'', raw = st \<rparr>)"

section \<open>Stream reconstructor\<close>

text \<open>
  JavaScript truthiness of a value that is \<^verbatim>\<open>null\<close>, \<^verbatim>\<open>undefined\<close> or a string:
  only a non-empty string is truthy. The source tests \<^verbatim>\<open>activeTextId\<close>,
  \<^verbatim>\<open>responseId\<close> and the reasoning text this way.
\<close>

fun truthy :: "string option \<Rightarrow> bool" where
  "truthy None = False"
| "truthy (Some s) = (s \<noteq> [])"

text \<open>
  The variables \<^verbatim>\<open>doStream\<close> declares before it builds the transform, and that
  \<^verbatim>\<open>transform\<close> and \<^verbatim>\<open>flush\<close> read and assign.
\<close>

record stream_state =
  responseId :: "string option"
  sawToolCall :: bool
  usage :: "usage option"
  finishReason :: "finish_reason option"
  activeTextId :: "string option"

definition initial_state :: stream_state where
  "initial_state =
     \<lparr> responseId = None, sawToolCall = False, usage = None, finishReason = None,
       activeTextId = None \<rparr>"

text \<open>
  What the closures capture besides the state: the provider name of the model's
  configuration, the caller's \<^verbatim>\<open>includeRawChunks\<close> option and the headers of the
  HTTP response.
\<close>

record stream_env =
  providerName :: string
  includeRawChunks :: bool
  responseHeaders :: headers

text \<open>
  The cases \<^verbatim>\<open>response.output_item.added\<close> and \<^verbatim>\<open>response.output_item.done\<close>:
  two independent tests on the item's type. \<^verbatim>\<open>item.summary ?? item.content\<close> takes
  the content only when the summary is absent.
\<close>

fun output_item_event :: "stream_env \<Rightarrow> stream_state \<Rightarrow> output_item \<Rightarrow> stream_state \<times> stream_part list" where
  "output_item_event env s (FunctionCallItem iid call_id name arguments _) =
     (s\<lparr>sawToolCall := True\<rparr>,
      [ToolCall call_id name arguments (ProviderMetadata (providerName env) ''itemId'' iid)])"
| "output_item_event env s (ReasoningItem iid content summary) =
     (let text = (case summary of Some t \<Rightarrow> Some t | None \<Rightarrow> content)
      in case text of
           Some t \<Rightarrow>
             (if t \<noteq> [] then (s, [ReasoningStart iid, ReasoningDelta iid t, ReasoningEnd iid])
              else (s, []))
         | None \<Rightarrow> (s, []))"
| "output_item_event env s (MessageItem _ _ _) = (s, [])"

text \<open>
  The \<^verbatim>\<open>switch (event.type)\<close> of \<^verbatim>\<open>transform\<close>. In the text-delta case the
  text-delta carries \<^verbatim>\<open>activeTextId\<close> as it is after the test \<^verbatim>\<open>if (!activeTextId)\<close>:
  the event's item id when the test has just assigned it, the earlier id otherwise. The
  timestamp is \<^verbatim>\<open>created_at * 1e3\<close>.
\<close>

fun on_event :: "stream_env \<Rightarrow> stream_state \<Rightarrow> stream_event \<Rightarrow> stream_state \<times> stream_part list" where
  "on_event env s (ResponseCreated r) =
     (s\<lparr>responseId := Some (resp_id r)\<rparr>,
      [ResponseMetadata (resp_id r) (created_at r * 1000) (model r) (responseHeaders env)])"
| "on_event env s (OutputTextDelta item_id _ _ delta) =
     (if \<not> truthy (activeTextId s)
      then (s\<lparr>activeTextId := Some item_id\<rparr>, [TextStart item_id, TextDelta item_id delta])
      else (case activeTextId s of
              Some a \<Rightarrow> (s, [TextDelta a delta])
            | None \<Rightarrow> (s, [])))"
| "on_event env s (OutputItemAdded _ item) = output_item_event env s item"
| "on_event env s (OutputItemDone _ item) = output_item_event env s item"
| "on_event env s (ResponseCompleted r) =
     (s\<lparr>usage := Some (mapUsage (resp_usage r)),
        finishReason := Some (mapFinishReason (status r) (sawToolCall s))\<rparr>, [])"
| "on_event env s (ResponseFailed r) =
     (s\<lparr>usage := Some (mapUsage (resp_usage r)),
        finishReason := Some (mapFinishReason (status r) (sawToolCall s))\<rparr>, [])"
| "on_event env s _ = (s, [])"

text \<open>
  \<^verbatim>\<open>transform(chunk, controller)\<close>: the raw echo when it was asked for, then either
  the error branch of a chunk that failed validation or the switch.
\<close>

fun transform :: "stream_env \<Rightarrow> stream_state \<Rightarrow> parse_result \<Rightarrow> stream_state \<times> stream_part list" where
  "transform env s (Failure err rawValue) =
     (s\<lparr>finishReason := Some \<lparr> unified = ''error'', raw = ''error'' \<rparr>\<rparr>,
      (if includeRawChunks env then [RawChunk rawValue] else []) @ [ErrorPart err])"
| "transform env s (Success event rawValue) =
     (case on_event env s event of
        (s', out) \<Rightarrow> (s', (if includeRawChunks env then [RawChunk rawValue] else []) @ out))"

text \<open>\<^verbatim>\<open>flush(controller)\<close>, called once when the vendor stream has ended.\<close>

definition flush :: "stream_env \<Rightarrow> stream_state \<Rightarrow> stream_part list" where
  "flush env s =
     (case activeTextId s of
        Some a \<Rightarrow> (if a \<noteq> [] then [TextEnd a] else [])
      | None \<Rightarrow> [])
     @
     (case usage s of
        None \<Rightarrow> []
      | Some u \<Rightarrow>
          [Finish u
             (case finishReason s of
                Some f \<Rightarrow> f
              | None \<Rightarrow> \<lparr> unified = ''other'', raw = ''unknown'' \<rparr>)
             (case responseId s of
                Some rid \<Rightarrow>
                  (if rid \<noteq> [] then Some (ProviderMetadata (providerName env) ''responseId'' rid)
                   else None)
              | None \<Rightarrow> None)])"

text \<open>
  The transform stream applied to the chunks in arrival order: the state after the last
  chunk and everything enqueued on the way.
\<close>

fun transform_all :: "stream_env \<Rightarrow> stream_state \<Rightarrow> parse_result list \<Rightarrow> stream_state \<times> stream_part list" where
  "transform_all env s [] = (s, [])"
| "transform_all env s (c # cs) =
     (case transform env s c of
        (s', out) \<Rightarrow> (case transform_all env s' cs of (s'', outs) \<Rightarrow> (s'', out @ outs)))"

text \<open>
  The stream \<^verbatim>\<open>doStream\<close> returns, once the request has been answered: what
  \<^verbatim>\<open>start\<close> enqueues, then the output of \<^verbatim>\<open>transform\<close> for each chunk, then what
  \<^verbatim>\<open>flush\<close> enqueues. The warnings are those \<^verbatim>\<open>getArgs\<close> collected.
\<close>

definition doStream :: "stream_env \<Rightarrow> warning list \<Rightarrow> parse_result list \<Rightarrow> stream_part list" where
  "doStream env warnings chunks =
     StreamStart warnings #
     (case transform_all env initial_state chunks of (s, out) \<Rightarrow> out @ flush env s)"

text \<open>
  Two cases of the switch by name: the chunks that reach
  \<^verbatim>\<open>case "response.output_text.delta"\<close>, and those that reach
  \<^verbatim>\<open>case "response.completed"\<close> or \<^verbatim>\<open>case "response.failed"\<close>.
\<close>

fun is_text_delta :: "parse_result \<Rightarrow> bool" where
  "is_text_delta (Success (OutputTextDelta _ _ _ _) _) = True"
| "is_text_delta _ = False"

fun is_terminal :: "parse_result \<Rightarrow> bool" where
  "is_terminal (Success (ResponseCompleted _) _) = True"
| "is_terminal (Success (ResponseFailed _) _) = True"
| "is_terminal _ = False"

section \<open>Prompt-to-input translator\<close>

subsection \<open>Normalized prompt\<close>

text \<open>
  The payload of a file part: a \<^verbatim>\<open>URL\<close> object (kept as what \<^verbatim>\<open>toString()\<close> gives),
  a string, or bytes.
\<close>

datatype file_data =
    DataURL string
  | DataString string
  | DataBytes "8 word list"

text \<open>
  The \<^verbatim>\<open>output\<close> of a tool-result part, by its \<^verbatim>\<open>type\<close>: \<^verbatim>\<open>text\<close>, \<^verbatim>\<open>error-text\<close>,
  \<^verbatim>\<open>json\<close>, \<^verbatim>\<open>error-json\<close>, \<^verbatim>\<open>execution-denied\<close> (with its optional reason) and
  \<^verbatim>\<open>content\<close>; \<open>OtherOutput\<close> is a payload of any other type, kept whole.
\<close>

datatype tool_output =
    TextOutput string
  | ErrorTextOutput string
  | JsonOutput json
  | ErrorJsonOutput json
  | ExecutionDenied "string option"
  | ContentOutput json
  | OtherOutput json

text \<open>
  The parts of a system, developer, user or assistant message that the translator
  tells apart: \<open>FilePart mediaType data filename\<close>,
  \<open>ToolCallPart toolCallId toolName input\<close>; \<open>OtherPart\<close> is a part of any other
  type, which no branch of the loop matches.
\<close>

datatype part =
    TextPart string
  | FilePart string file_data "string option"
  | ToolCallPart string string string
  | ReasoningPart string
  | OtherPart string

text \<open>
  The parts of a tool message: \<open>ToolResultPart toolCallId toolName output\<close> and the
  human approval decision \<open>ToolApprovalResponsePart approvalId approved\<close>.
\<close>

datatype tool_part =
    ToolResultPart string string tool_output
  | ToolApprovalResponsePart string bool

text \<open>What \<^verbatim>\<open>message.content\<close> may hold: an array of parts, a string, or neither.\<close>

datatype content =
    ContentArray "part list"
  | ContentString string
  | ContentAbsent

datatype role = System | Developer | User | Assistant

text \<open>
  A message of the prompt, by its role: one of the four textual roles with its content,
  the \<^verbatim>\<open>tool\<close> role with its parts, or any other role (named by its string).
\<close>

datatype message =
    Message role content
  | ToolMessage "tool_part list"
  | OtherMessage string

subsection \<open>Vendor input items\<close>

text \<open>
  \<open>Base64Source media_type data filename\<close>: the file name is present only for a
  file whose part declares one.
\<close>

datatype source =
    UrlSource string
  | Base64Source string string "string option"

datatype input_part =
    InputText string
  | OutputText string
  | InputImage source
  | InputFile source

datatype item_content =
    PlainText string
  | ContentParts "input_part list"

text \<open>
  \<open>InputMessage role content\<close>, \<open>FunctionCall call_id name arguments\<close>,
  \<open>FunctionCallOutput call_id output\<close>, \<open>Reasoning content\<close>.
\<close>

datatype input_item =
    InputMessage role item_content
  | FunctionCall string string string
  | FunctionCallOutput string string
  | Reasoning string

subsection \<open>Translation\<close>

text \<open>
  \<^verbatim>\<open>toToolOutputString\<close>. \<^verbatim>\<open>JSON.stringify\<close> belongs to the platform and is a
  parameter. \<^verbatim>\<open>output.reason ?? "Tool execution denied."\<close> falls back only when the
  reason is absent.
\<close>

fun toToolOutputString :: "(json \<Rightarrow> string) \<Rightarrow> tool_output \<Rightarrow> string" where
  "toToolOutputString stringify (TextOutput v) = v"
| "toToolOutputString stringify (ErrorTextOutput v) = v"
| "toToolOutputString stringify (JsonOutput v) = stringify v"
| "toToolOutputString stringify (ErrorJsonOutput v) = stringify v"
| "toToolOutputString stringify (ExecutionDenied reason) =
     (case reason of Some r \<Rightarrow> r | None \<Rightarrow> ''Tool execution denied.'')"
| "toToolOutputString stringify (ContentOutput v) = stringify v"
| "toToolOutputString stringify (OtherOutput payload) = stringify payload"

text \<open>
  \<^verbatim>\<open>isHttpUrl\<close>: the regular expression \<^verbatim>\<open>/^https?:\/\//i\<close>, a prefix test that
  ignores the case of the four letters.
\<close>

definition toLowerCase :: "char \<Rightarrow> char" where
  "toLowerCase c =
     (let n = (of_char c :: nat) in if 65 \<le> n \<and> n \<le> 90 then char_of (n + 32) else c)"

definition isHttpUrl :: "string \<Rightarrow> bool" where
  "isHttpUrl v =
     (map toLowerCase (take 7 v) = ''http://'' \<or> map toLowerCase (take 8 v) = ''https://'')"

definition normalizeContentParts :: "content \<Rightarrow> part list" where
  "normalizeContentParts c =
     (case c of ContentArray ps \<Rightarrow> ps | ContentString s \<Rightarrow> [TextPart s] | ContentAbsent \<Rightarrow> [])"

text \<open>
  \<^verbatim>\<open>.filter((part) => part && part.type === "text").map((part) => part.text)\<close>
\<close>

fun text_parts :: "part list \<Rightarrow> string list" where
  "text_parts [] = []"
| "text_parts (TextPart t # ps) = t # text_parts ps"
| "text_parts (_ # ps) = text_parts ps"

text \<open>\<^verbatim>\<open>Array.prototype.join\<close> on strings: the separator goes between elements only.\<close>

fun join_strings :: "string \<Rightarrow> string list \<Rightarrow> string" where
  "join_strings sep [] = []"
| "join_strings sep [x] = x"
| "join_strings sep (x # y # ys) = x @ sep @ join_strings sep (y # ys)"

definition newline :: string where
  "newline = [CHR 0x0A]"

text \<open>
  The branch for a file part. \<^verbatim>\<open>convertToBase64\<close> comes from the utilities package
  and is a parameter.
\<close>

definition convertFilePart :: "(8 word list \<Rightarrow> string) \<Rightarrow> string \<Rightarrow> file_data \<Rightarrow> string option \<Rightarrow> input_part" where
  "convertFilePart convertToBase64 partMediaType data filename =
     (let mediaType = (if partMediaType = ''image/*'' then ''image/jpeg'' else partMediaType);
          isImage = (take 6 mediaType = ''image/'')
      in case data of
           DataURL u \<Rightarrow> (if isImage then InputImage (UrlSource u) else InputFile (UrlSource u))
         | DataString d \<Rightarrow>
             (if isHttpUrl d
              then (if isImage then InputImage (UrlSource d) else InputFile (UrlSource d))
              else (if isImage then InputImage (Base64Source mediaType d None)
                    else InputFile (Base64Source mediaType d filename)))
         | DataBytes b \<Rightarrow>
             (if isImage then InputImage (Base64Source mediaType (convertToBase64 b) None)
              else InputFile (Base64Source mediaType (convertToBase64 b) filename)))"

text \<open>
  The loop over the parts of a user or assistant message. Its state is the pair of the
  arrays it pushes to: the outer \<^verbatim>\<open>input\<close> and the message's own \<^verbatim>\<open>contentParts\<close>.
\<close>

fun convertParts :: "(8 word list \<Rightarrow> string) \<Rightarrow> bool \<Rightarrow> part list \<Rightarrow> input_item list \<times> input_part list \<Rightarrow> input_item list \<times> input_part list" where
  "convertParts b64 assistant [] acc = acc"
| "convertParts b64 assistant (TextPart t # ps) (input, contentParts) =
     convertParts b64 assistant ps
       (input, contentParts @ [if assistant then OutputText t else InputText t])"
| "convertParts b64 assistant (FilePart mediaType data filename # ps) (input, contentParts) =
     convertParts b64 assistant ps
       (input, contentParts @ [convertFilePart b64 mediaType data filename])"
| "convertParts b64 assistant (ToolCallPart toolCallId toolName inp # ps) (input, contentParts) =
     convertParts b64 assistant ps (input @ [FunctionCall toolCallId toolName inp], contentParts)"
| "convertParts b64 assistant (ReasoningPart t # ps) (input, contentParts) =
     convertParts b64 assistant ps (input @ [Reasoning t], contentParts)"
| "convertParts b64 assistant (OtherPart _ # ps) (input, contentParts) =
     convertParts b64 assistant ps (input, contentParts)"

text \<open>The loop over the parts of a tool message, pushing to \<^verbatim>\<open>input\<close>.\<close>

fun convertToolParts :: "(json \<Rightarrow> string) \<Rightarrow> tool_part list \<Rightarrow> input_item list \<Rightarrow> input_item list" where
  "convertToolParts stringify [] input = input"
| "convertToolParts stringify (ToolApprovalResponsePart _ _ # ps) input =
     convertToolParts stringify ps input"
| "convertToolParts stringify (ToolResultPart toolCallId _ out # ps) input =
     convertToolParts stringify ps
       (input @ [FunctionCallOutput toolCallId (toToolOutputString stringify out)])"

text \<open>
  One iteration of the loop over the messages. \<^verbatim>\<open>if (text)\<close> tests the joined string,
  which is truthy exactly when it is not empty.
\<close>

fun convertMessage :: "(json \<Rightarrow> string) \<Rightarrow> (8 word list \<Rightarrow> string) \<Rightarrow> input_item list \<Rightarrow> message \<Rightarrow> input_item list" where
  "convertMessage stringify b64 input (Message r c) =
     (if r = System \<or> r = Developer
      then (let text = join_strings newline (text_parts (normalizeContentParts c))
            in if text \<noteq> [] then input @ [InputMessage r (PlainText text)] else input)
      else (case convertParts b64 (r = Assistant) (normalizeContentParts c) (input, []) of
              (input', contentParts) \<Rightarrow>
                (if length contentParts > 0
                 then input' @ [InputMessage r (ContentParts contentParts)]
                 else input')))"
| "convertMessage stringify b64 input (ToolMessage toolParts) =
     convertToolParts stringify toolParts input"
| "convertMessage stringify b64 input (OtherMessage _) = input"

fun convertMessages :: "(json \<Rightarrow> string) \<Rightarrow> (8 word list \<Rightarrow> string) \<Rightarrow> input_item list \<Rightarrow> message list \<Rightarrow> input_item list" where
  "convertMessages stringify b64 input [] = input"
| "convertMessages stringify b64 input (m # ms) =
     convertMessages stringify b64 (convertMessage stringify b64 input m) ms"

text \<open>\<^verbatim>\<open>convertPromptToInput\<close>: the loop started on a fresh, empty array.\<close>

definition convertPromptToInput :: "(json \<Rightarrow> string) \<Rightarrow> (8 word list \<Rightarrow> string) \<Rightarrow> message list \<Rightarrow> input_item list" where
  "convertPromptToInput stringify b64 prompt = convertMessages stringify b64 [] prompt"

subsection \<open>Translation with the arrays in a store\<close>

text \<open>
  The same function with its allocations made explicit. \<^verbatim>\<open>convertPromptToInput\<close>
  creates one array per call (\<^verbatim>\<open>const input = []\<close>) and one per user or assistant
  message (\<^verbatim>\<open>const contentParts = []\<close>), pushes to them, stores a reference to
  \<^verbatim>\<open>contentParts\<close> in the message item and returns a reference to \<^verbatim>\<open>input\<close>. The
  store holds every array created so far, the item arrays and the part arrays apart; an
  address is an index into it. A stored message item has its text or the address of its
  part array as content. The prompt is only read, so it stays a value. The function
  reads no variable of the module, and the regular expression of \<^verbatim>\<open>isHttpUrl\<close> has
  no \<^verbatim>\<open>g\<close> flag, so \<^verbatim>\<open>test\<close> keeps no position from one call to the next.
\<close>

datatype stored_content =
    StoredText string
  | StoredParts nat

datatype stored_item =
    StoredMessage role stored_content
  | StoredFunctionCall string string string
  | StoredFunctionCallOutput string string
  | StoredReasoning string

record store =
  item_arrays :: "stored_item list list"
  part_arrays :: "input_part list list"

text \<open>
  \<^verbatim>\<open>[]\<close> creates an array at the next free address; \<^verbatim>\<open>push\<close> appends to the array
  at the address it is given.
\<close>

definition new_item_array :: "store \<Rightarrow> nat \<times> store" where
  "new_item_array h = (length (item_arrays h), h\<lparr>item_arrays := item_arrays h @ [[]]\<rparr>)"

definition new_part_array :: "store \<Rightarrow> nat \<times> store" where
  "new_part_array h = (length (part_arrays h), h\<lparr>part_arrays := part_arrays h @ [[]]\<rparr>)"

definition push_item :: "nat \<Rightarrow> stored_item \<Rightarrow> store \<Rightarrow> store" where
  "push_item a x h = h\<lparr>item_arrays := (item_arrays h)[a := item_arrays h ! a @ [x]]\<rparr>"

definition push_part :: "nat \<Rightarrow> input_part \<Rightarrow> store \<Rightarrow> store" where
  "push_part a x h = h\<lparr>part_arrays := (part_arrays h)[a := part_arrays h ! a @ [x]]\<rparr>"

text \<open>
  Reading: the array at an address, and the sequence of input items a caller holding
  the address of an item array sees, every reference to a part array followed.
\<close>

definition items_at :: "store \<Rightarrow> nat \<Rightarrow> stored_item list" where
  "items_at h a = (if a < length (item_arrays h) then item_arrays h ! a else [])"

definition parts_at :: "store \<Rightarrow> nat \<Rightarrow> input_part list" where
  "parts_at h a = (if a < length (part_arrays h) then part_arrays h ! a else [])"

fun load_item :: "store \<Rightarrow> stored_item \<Rightarrow> input_item" where
  "load_item h (StoredMessage r (StoredText t)) = InputMessage r (PlainText t)"
| "load_item h (StoredMessage r (StoredParts a)) = InputMessage r (ContentParts (parts_at h a))"
| "load_item h (StoredFunctionCall call_id name arguments) = FunctionCall call_id name arguments"
| "load_item h (StoredFunctionCallOutput call_id out) = FunctionCallOutput call_id out"
| "load_item h (StoredReasoning t) = Reasoning t"

definition load_items :: "store \<Rightarrow> nat \<Rightarrow> input_item list" where
  "load_items h a = map (load_item h) (items_at h a)"

text \<open>The part array a stored item refers to, if any.\<close>

fun part_ref :: "stored_item \<Rightarrow> nat option" where
  "part_ref (StoredMessage r (StoredParts a)) = Some a"
| "part_ref _ = None"

text \<open>
  The loops and the function, as the source has them: \<open>input\<close> and
  \<open>contentParts\<close> are the addresses that the variables of those names hold.
\<close>

fun convertParts_store :: "(8 word list \<Rightarrow> string) \<Rightarrow> bool \<Rightarrow> nat \<Rightarrow> nat \<Rightarrow> part list \<Rightarrow> store \<Rightarrow> store" where
  "convertParts_store b64 assistant input contentParts [] h = h"
| "convertParts_store b64 assistant input contentParts (TextPart t # ps) h =
     convertParts_store b64 assistant input contentParts ps
       (push_part contentParts (if assistant then OutputText t else InputText t) h)"
| "convertParts_store b64 assistant input contentParts (FilePart mediaType data filename # ps) h =
     convertParts_store b64 assistant input contentParts ps
       (push_part contentParts (convertFilePart b64 mediaType data filename) h)"
| "convertParts_store b64 assistant input contentParts (ToolCallPart toolCallId toolName inp # ps) h =
     convertParts_store b64 assistant input contentParts ps
       (push_item input (StoredFunctionCall toolCallId toolName inp) h)"
| "convertParts_store b64 assistant input contentParts (ReasoningPart t # ps) h =
     convertParts_store b64 assistant input contentParts ps (push_item input (StoredReasoning t) h)"
| "convertParts_store b64 assistant input contentParts (OtherPart _ # ps) h =
     convertParts_store b64 assistant input contentParts ps h"

fun convertToolParts_store :: "(json \<Rightarrow> string) \<Rightarrow> nat \<Rightarrow> tool_part list \<Rightarrow> store \<Rightarrow> store" where
  "convertToolParts_store stringify input [] h = h"
| "convertToolParts_store stringify input (ToolApprovalResponsePart _ _ # ps) h =
     convertToolParts_store stringify input ps h"
| "convertToolParts_store stringify input (ToolResultPart toolCallId _ out # ps) h =
     convertToolParts_store stringify input ps
       (push_item input (StoredFunctionCallOutput toolCallId (toToolOutputString stringify out)) h)"

fun convertMessage_store :: "(json \<Rightarrow> string) \<Rightarrow> (8 word list \<Rightarrow> string) \<Rightarrow> nat \<Rightarrow> message \<Rightarrow> store \<Rightarrow> store" where
  "convertMessage_store stringify b64 input (Message r c) h =
     (if r = System \<or> r = Developer
      then (let text = join_strings newline (text_parts (normalizeContentParts c))
            in if text \<noteq> [] then push_item input (StoredMessage r (StoredText text)) h else h)
      else (case new_part_array h of
              (contentParts, h1) \<Rightarrow>
                (let h2 = convertParts_store b64 (r = Assistant) input contentParts
                            (normalizeContentParts c) h1
                 in if length (parts_at h2 contentParts) > 0
                    then push_item input (StoredMessage r (StoredParts contentParts)) h2
                    else h2)))"
| "convertMessage_store stringify b64 input (ToolMessage toolParts) h =
     convertToolParts_store stringify input toolParts h"
| "convertMessage_store stringify b64 input (OtherMessage _) h = h"

fun convertMessages_store :: "(json \<Rightarrow> string) \<Rightarrow> (8 word list \<Rightarrow> string) \<Rightarrow> nat \<Rightarrow> message list \<Rightarrow> store \<Rightarrow> store" where
  "convertMessages_store stringify b64 input [] h = h"
| "convertMessages_store stringify b64 input (m # ms) h =
     convertMessages_store stringify b64 input ms (convertMessage_store stringify b64 input m h)"

text \<open>
  \<^verbatim>\<open>convertPromptToInput(prompt)\<close>, run in a store: it returns the address of the
  array it created and the store it leaves behind.
\<close>

definition convertPromptToInput_store :: "(json \<Rightarrow> string) \<Rightarrow> (8 word list \<Rightarrow> string) \<Rightarrow> message list \<Rightarrow> store \<Rightarrow> nat \<times> store" where
  "convertPromptToInput_store stringify b64 prompt h =
     (case new_item_array h of
        (input, h1) \<Rightarrow> (input, convertMessages_store stringify b64 input prompt h1))"

section \<open>Tool mapping\<close>

text \<open>
  A tool of the call options: \<open>FunctionTool name description inputSchema\<close> or
  \<open>ProviderTool id name args\<close>, the two kinds the interface declares.
\<close>

datatype tool =
    FunctionTool string "string option" json
  | ProviderTool string string json

text \<open>
  The vendor record \<^verbatim>\<open>{type: "function", function: {name, description, parameters}}\<close>.
\<close>

datatype openclaw_tool = OpenclawFunction string "string option" "json option"

fun is_function_tool :: "tool \<Rightarrow> bool" where
  "is_function_tool (FunctionTool _ _ _) = True"
| "is_function_tool (ProviderTool _ _ _) = False"

fun is_provider_tool :: "tool \<Rightarrow> bool" where
  "is_provider_tool (ProviderTool _ _ _) = True"
| "is_provider_tool (FunctionTool _ _ _) = False"

text \<open>
  The body of the final \<^verbatim>\<open>map\<close>: \<^verbatim>\<open>tool.name\<close>, \<^verbatim>\<open>tool.description\<close> and
  \<^verbatim>\<open>tool.inputSchema\<close>, the last two being undefined on a provider tool.
\<close>

fun to_openclaw_tool :: "tool \<Rightarrow> openclaw_tool" where
  "to_openclaw_tool (FunctionTool name description inputSchema) =
     OpenclawFunction name description (Some inputSchema)"
| "to_openclaw_tool (ProviderTool _ name _) = OpenclawFunction name None None"

text \<open>
  \<^verbatim>\<open>mapTools(tools, warnings)\<close>: the result (\<open>None\<close> for \<^verbatim>\<open>undefined\<close>) and the
  warnings array after the call.
\<close>

definition mapTools :: "tool list option \<Rightarrow> warning list \<Rightarrow> openclaw_tool list option \<times> warning list" where
  "mapTools tools warnings =
     (case tools of
        None \<Rightarrow> (None, warnings)
      | Some ts \<Rightarrow>
          (if length ts = 0 then (None, warnings)
           else (let functionTools = filter is_function_tool ts;
                     providerTools = filter is_provider_tool ts;
                     warnings' =
                       (if length providerTools > 0
                        then warnings @
                             [Unsupported ''providerTools''
                                (Some ''OpenClaw responses only support function tools'')]
                        else warnings)
                 in if length functionTools = 0 then (None, warnings')
                    else (Some (map to_openclaw_tool functionTools), warnings'))))"

section \<open>Properties\<close>

subsection \<open>Finish reason\<close>

text \<open>
  Claim C2. For every status string and every value of the saw-tool-call flag: the
  unified finish reason is "tool-calls" whenever a tool call was observed or the status
  is "incomplete"; otherwise "completed" gives "stop", "failed" gives "error", and any
  other status gives "other" with the raw field equal to the status string itself.
\<close>

theorem mapFinishReason_policy:
  "(saw \<or> st = ''incomplete'' \<longrightarrow> unified (mapFinishReason st saw) = ''tool-calls'') \<and>
   (\<not> saw \<and> st = ''completed'' \<longrightarrow> unified (mapFinishReason st saw) = ''stop'') \<and>
   (\<not> saw \<and> st = ''failed'' \<longrightarrow> unified (mapFinishReason st saw) = ''error'') \<and>
   (\<not> saw \<and> st \<noteq> ''incomplete'' \<and> st \<noteq> ''completed'' \<and> st \<noteq> ''failed'' \<longrightarrow>
      unified (mapFinishReason st saw) = ''other'' \<and> raw (mapFinishReason st saw) = st)"
  by (simp add: mapFinishReason_def)

theorem mapFinishReason_policy_witness:
  "unified (mapFinishReason ''completed'' True) = ''tool-calls'' \<and>
   unified (mapFinishReason ''incomplete'' False) = ''tool-calls'' \<and>
   unified (mapFinishReason ''completed'' False) = ''stop'' \<and>
   unified (mapFinishReason ''failed'' False) = ''error'' \<and>
   unified (mapFinishReason ''cancelled'' False) = ''other'' \<and>
   raw (mapFinishReason ''cancelled'' False) = ''cancelled''"
  using mapFinishReason_policy [of True "''completed''"]
        mapFinishReason_policy [of False "''incomplete''"]
        mapFinishReason_policy [of False "''completed''"]
        mapFinishReason_policy [of False "''failed''"]
        mapFinishReason_policy [of False "''cancelled''"]
  by simp

subsection \<open>Prompt translation: the loops only append\<close>

text \<open>
  Every loop of the translator pushes to the arrays it was given and never reads them
  back, so what a run appends does not depend on what the arrays held before.
\<close>

lemma convertParts_acc:
  "convertParts b64 a ps (input, cps) =
     (input @ fst (convertParts b64 a ps ([], [])), cps @ snd (convertParts b64 a ps ([], [])))"
proof (induction ps arbitrary: input cps)
  case Nil
  show ?case by simp
next
  case (Cons p ps)
  show ?case
  proof (cases p)
    case (TextPart t)
    show ?thesis
      using Cons.IH [of input "cps @ [if a then OutputText t else InputText t]"]
            Cons.IH [of "[]" "[if a then OutputText t else InputText t]"]
      by (simp add: TextPart)
  next
    case (FilePart m d f)
    show ?thesis
      using Cons.IH [of input "cps @ [convertFilePart b64 m d f]"]
            Cons.IH [of "[]" "[convertFilePart b64 m d f]"]
      by (simp add: FilePart)
  next
    case (ToolCallPart c n i)
    show ?thesis
      using Cons.IH [of "input @ [FunctionCall c n i]" cps]
            Cons.IH [of "[FunctionCall c n i]" "[]"]
      by (simp add: ToolCallPart)
  next
    case (ReasoningPart t)
    show ?thesis
      using Cons.IH [of "input @ [Reasoning t]" cps] Cons.IH [of "[Reasoning t]" "[]"]
      by (simp add: ReasoningPart)
  next
    case (OtherPart t)
    show ?thesis
      using Cons.IH [of input cps] by (simp add: OtherPart)
  qed
qed

text \<open>What one part of a tool message contributes.\<close>

lemma convertToolParts_items:
  "convertToolParts S ps input =
     input @ concat (map (\<lambda>p. case p of
                                ToolApprovalResponsePart _ _ \<Rightarrow> []
                              | ToolResultPart cid _ out \<Rightarrow>
                                  [FunctionCallOutput cid (toToolOutputString S out)]) ps)"
proof (induction ps arbitrary: input)
  case Nil
  show ?case by simp
next
  case (Cons p ps)
  show ?case by (cases p) (simp_all add: Cons.IH)
qed

lemma convertMessage_acc:
  "convertMessage S B input m = input @ convertMessage S B [] m"
proof (cases m)
  case (Message r c)
  show ?thesis
    using convertParts_acc [of B "r = Assistant" "normalizeContentParts c" input "[]"]
    by (simp add: Message Let_def split: prod.splits)
next
  case (ToolMessage ps)
  show ?thesis
    using convertToolParts_items [of S ps input] convertToolParts_items [of S ps "[]"]
    by (simp add: ToolMessage)
next
  case (OtherMessage r)
  show ?thesis by (simp add: OtherMessage)
qed

lemma convertMessages_acc:
  "convertMessages S B input ms = input @ convertMessages S B [] ms"
proof (induction ms arbitrary: input)
  case Nil
  show ?case by simp
next
  case (Cons m ms)
  have "convertMessages S B input (m # ms) =
          convertMessages S B (convertMessage S B input m) ms" by simp
  also have "\<dots> = convertMessage S B input m @ convertMessages S B [] ms"
    by (rule Cons.IH)
  also have "\<dots> = input @ convertMessage S B [] m @ convertMessages S B [] ms"
    using convertMessage_acc [of S B input m] by simp
  also have "\<dots> = input @ convertMessages S B (convertMessage S B [] m) ms"
    using Cons.IH [of "convertMessage S B [] m"] by simp
  finally show ?case by simp
qed

lemma convertPromptToInput_Cons:
  "convertPromptToInput S B (m # ms) = convertMessage S B [] m @ convertPromptToInput S B ms"
  using convertMessages_acc [of S B "convertMessage S B [] m" ms]
  by (simp add: convertPromptToInput_def)

lemma convertPromptToInput_append:
  "convertPromptToInput S B (xs @ ys) = convertPromptToInput S B xs @ convertPromptToInput S B ys"
proof (induction xs)
  case Nil
  show ?case by (simp add: convertPromptToInput_def)
next
  case (Cons m xs)
  show ?case using Cons.IH by (simp add: convertPromptToInput_Cons)
qed

lemma convertPromptToInput_Nil: "convertPromptToInput S B [] = []"
  by (simp add: convertPromptToInput_def)

lemma join_strings_empty:
  "(join_strings newline ts = []) = (ts = [] \<or> ts = [[]])"
proof (cases ts)
  case Nil
  then show ?thesis by simp
next
  case (Cons x xs)
  show ?thesis by (cases xs) (simp_all add: Cons newline_def)
qed

subsection \<open>Tool messages\<close>

text \<open>
  Claim C5. For every tool message, wherever it stands in the prompt: a part that is a
  human approval decision contributes no item, and every other part contributes exactly
  one \<open>function_call_output\<close> item, with the part's call id and the coerced output,
  in the order of the parts. The coercion passes text and error-text values through
  unchanged, serializes json, error-json and content values, turns an execution denial
  into its reason or, when it has none, into "Tool execution denied.", and serializes
  the whole payload of any other kind.
\<close>

theorem tool_message_translation:
  "convertPromptToInput S B (pre @ ToolMessage parts # post) =
     convertPromptToInput S B pre @
     concat (map (\<lambda>p. case p of
                        ToolApprovalResponsePart _ _ \<Rightarrow> []
                      | ToolResultPart cid _ out \<Rightarrow>
                          [FunctionCallOutput cid (toToolOutputString S out)]) parts) @
     convertPromptToInput S B post \<and>
   toToolOutputString S (TextOutput v) = v \<and>
   toToolOutputString S (ErrorTextOutput v) = v \<and>
   toToolOutputString S (JsonOutput j) = S j \<and>
   toToolOutputString S (ErrorJsonOutput j) = S j \<and>
   toToolOutputString S (ContentOutput j) = S j \<and>
   toToolOutputString S (ExecutionDenied (Some reason)) = reason \<and>
   toToolOutputString S (ExecutionDenied None) = ''Tool execution denied.'' \<and>
   toToolOutputString S (OtherOutput j) = S j"
  using convertToolParts_items [of S parts "[]"]
  by (simp add: convertPromptToInput_append convertPromptToInput_Cons)

subsection \<open>System and developer messages\<close>

text \<open>
  Claim C6, as stated, at a concrete input: a system message whose two text parts are
  both empty is not elided. The joined text is the separator alone, which is a
  non-empty string, and a message item with that content is emitted.
\<close>

theorem system_message_two_empty_texts:
  "convertPromptToInput (\<lambda>j. []) (\<lambda>b. [])
     [Message System (ContentArray [TextPart [], TextPart []])] =
   [InputMessage System (PlainText [CHR 0x0A])]"
  by (simp add: convertPromptToInput_def normalizeContentParts_def newline_def)

text \<open>
  Claim C6, amended. A system or developer message contributes no item to the
  translation exactly when the newline-joined text of its text parts is empty, that is,
  when it has no text part or exactly one text part and that part is empty. The
  translation of the rest of the prompt is unaffected.
\<close>

theorem system_message_elided:
  assumes "r = System \<or> r = Developer"
  shows "(convertPromptToInput S B (pre @ Message r c # post) =
            convertPromptToInput S B pre @ convertPromptToInput S B post) =
         (text_parts (normalizeContentParts c) = [] \<or>
          text_parts (normalizeContentParts c) = [[]])"
  using assms join_strings_empty [of "text_parts (normalizeContentParts c)"]
  by (auto simp add: convertPromptToInput_append convertPromptToInput_Cons Let_def)

theorem system_message_elided_witness:
  "(Developer = System \<or> Developer = Developer) \<and>
   convertPromptToInput (\<lambda>j. []) (\<lambda>b. [])
     ([Message User (ContentString ''hi'')] @
      Message Developer (ContentArray [OtherPart ''file'', TextPart []]) # []) =
   convertPromptToInput (\<lambda>j. []) (\<lambda>b. []) [Message User (ContentString ''hi'')] @
   convertPromptToInput (\<lambda>j. []) (\<lambda>b. []) []"
  using system_message_elided [of Developer "\<lambda>j. []" "\<lambda>b. []"
          "[Message User (ContentString ''hi'')]"
          "ContentArray [OtherPart ''file'', TextPart []]" "[]"]
  by (simp add: normalizeContentParts_def)

subsection \<open>Repeatability of the translation\<close>

text \<open>
  The run in a store simulates the functional translation: pushing to \<open>input\<close>
  appends to the sequence read at its address, and nothing else in the store changes
  but the part array of the message in hand, which no earlier item refers to.
\<close>

lemma load_item_agree:
  assumes "\<And>a. part_ref x = Some a \<Longrightarrow> parts_at h' a = parts_at h a"
  shows "load_item h' x = load_item h x"
proof (cases x)
  case (StoredMessage r c)
  show ?thesis using assms by (cases c) (simp_all add: StoredMessage)
qed simp_all

lemma push_part_load:
  assumes "\<forall>x \<in> set (items_at h inp). \<forall>a. part_ref x = Some a \<longrightarrow> a \<noteq> cp"
  shows "load_items (push_part cp y h) inp = load_items h inp"
proof -
  have same: "items_at (push_part cp y h) inp = items_at h inp"
    by (simp add: items_at_def push_part_def)
  have "\<And>x. x \<in> set (items_at h inp) \<Longrightarrow> load_item (push_part cp y h) x = load_item h x"
  proof (rule load_item_agree)
    fix x a assume "x \<in> set (items_at h inp)" and "part_ref x = Some a"
    then have "a \<noteq> cp" using assms by blast
    then show "parts_at (push_part cp y h) a = parts_at h a"
      by (simp add: parts_at_def push_part_def)
  qed
  then show ?thesis by (simp add: load_items_def same)
qed

lemma push_part_parts:
  assumes "cp < length (part_arrays h)"
  shows "parts_at (push_part cp y h) cp = parts_at h cp @ [y]"
  using assms by (simp add: parts_at_def push_part_def)

lemma push_part_frame:
  "item_arrays (push_part cp y h) = item_arrays h"
  "length (part_arrays (push_part cp y h)) = length (part_arrays h)"
  "b \<noteq> cp \<Longrightarrow> part_arrays (push_part cp y h) ! b = part_arrays h ! b"
  "items_at (push_part cp y h) inp = items_at h inp"
  by (simp_all add: push_part_def items_at_def)

lemma push_item_items:
  assumes "inp < length (item_arrays h)"
  shows "items_at (push_item inp x h) inp = items_at h inp @ [x]"
  using assms by (simp add: items_at_def push_item_def)

lemma push_item_parts:
  "parts_at (push_item inp x h) a = parts_at h a"
  by (simp add: parts_at_def push_item_def)

lemma push_item_load_item:
  "load_item (push_item inp x h) z = load_item h z"
  by (rule load_item_agree) (simp add: push_item_parts)

lemma push_item_load:
  assumes "inp < length (item_arrays h)"
  shows "load_items (push_item inp x h) inp = load_items h inp @ [load_item h x]"
  using assms by (simp add: load_items_def push_item_items push_item_load_item)

lemma push_item_frame:
  "part_arrays (push_item inp x h) = part_arrays h"
  "length (item_arrays (push_item inp x h)) = length (item_arrays h)"
  "b \<noteq> inp \<Longrightarrow> item_arrays (push_item inp x h) ! b = item_arrays h ! b"
  by (simp_all add: push_item_def)


lemma convertParts_store_sim:
  assumes "inp < length (item_arrays h)" and "cp < length (part_arrays h)"
    and "\<forall>x \<in> set (items_at h inp). \<forall>a. part_ref x = Some a \<longrightarrow> a < cp"
  shows "(load_items (convertParts_store b64 a inp cp ps h) inp,
          parts_at (convertParts_store b64 a inp cp ps h) cp) =
           convertParts b64 a ps (load_items h inp, parts_at h cp) \<and>
         length (item_arrays (convertParts_store b64 a inp cp ps h)) = length (item_arrays h) \<and>
         length (part_arrays (convertParts_store b64 a inp cp ps h)) = length (part_arrays h) \<and>
         (\<forall>b. b \<noteq> inp \<longrightarrow>
            item_arrays (convertParts_store b64 a inp cp ps h) ! b = item_arrays h ! b) \<and>
         (\<forall>b. b \<noteq> cp \<longrightarrow>
            part_arrays (convertParts_store b64 a inp cp ps h) ! b = part_arrays h ! b) \<and>
         (\<forall>x \<in> set (items_at (convertParts_store b64 a inp cp ps h) inp).
            \<forall>r. part_ref x = Some r \<longrightarrow> r < cp)"
  using assms
proof (induction ps arbitrary: h)
  case Nil
  then show ?case by simp
next
  case (Cons p ps)
  have avoid: "\<forall>x \<in> set (items_at h inp). \<forall>a. part_ref x = Some a \<longrightarrow> a \<noteq> cp"
    using Cons.prems(3) by auto
  have part_step: "?case" if p: "p = TextPart t \<or> p = FilePart m d f"
    and y: "convertParts_store b64 a inp cp (p # ps) h =
              convertParts_store b64 a inp cp ps (push_part cp y h)"
    and f: "convertParts b64 a (p # ps) (load_items h inp, parts_at h cp) =
              convertParts b64 a ps (load_items h inp, parts_at h cp @ [y])"
    for t m d f y
  proof -
    let ?h1 = "push_part cp y h"
    have pre: "inp < length (item_arrays ?h1)" "cp < length (part_arrays ?h1)"
      "\<forall>x \<in> set (items_at ?h1 inp). \<forall>a. part_ref x = Some a \<longrightarrow> a < cp"
      using Cons.prems by (simp_all add: push_part_frame)
    show ?thesis
      using Cons.IH [OF pre] Cons.prems(2) avoid
      by (simp add: y f push_part_load push_part_parts push_part_frame)
  qed
  have item_step: "?case"
    if y: "convertParts_store b64 a inp cp (p # ps) h =
              convertParts_store b64 a inp cp ps (push_item inp x h)"
    and f: "convertParts b64 a (p # ps) (load_items h inp, parts_at h cp) =
              convertParts b64 a ps (load_items h inp @ [load_item h x], parts_at h cp)"
    and x: "part_ref x = None"
    for x
  proof -
    let ?h1 = "push_item inp x h"
    have pre: "inp < length (item_arrays ?h1)" "cp < length (part_arrays ?h1)"
      "\<forall>z \<in> set (items_at ?h1 inp). \<forall>a. part_ref z = Some a \<longrightarrow> a < cp"
      using Cons.prems x by (auto simp add: push_item_frame push_item_items)
    show ?thesis
      using Cons.IH [OF pre] Cons.prems(1)
      by (simp add: y f push_item_load push_item_parts push_item_frame)
  qed
  show ?case
  proof (cases p)
    case (TextPart t)
    show ?thesis
      by (rule part_step [of t _ _ _ "if a then OutputText t else InputText t"])
         (simp_all add: TextPart)
  next
    case (FilePart m d f)
    show ?thesis
      by (rule part_step [of _ m d f "convertFilePart b64 m d f"]) (simp_all add: FilePart)
  next
    case (ToolCallPart c n i)
    show ?thesis
      by (rule item_step [of "StoredFunctionCall c n i"]) (simp_all add: ToolCallPart)
  next
    case (ReasoningPart t)
    show ?thesis
      by (rule item_step [of "StoredReasoning t"]) (simp_all add: ReasoningPart)
  next
    case (OtherPart t)
    show ?thesis using Cons.IH [OF Cons.prems] by (simp add: OtherPart)
  qed
qed


lemma convertToolParts_store_sim:
  assumes "inp < length (item_arrays h)"
    and "\<forall>x \<in> set (items_at h inp). \<forall>r. part_ref x = Some r \<longrightarrow> r < n"
  shows "load_items (convertToolParts_store S inp ps h) inp =
           convertToolParts S ps (load_items h inp) \<and>
         part_arrays (convertToolParts_store S inp ps h) = part_arrays h \<and>
         length (item_arrays (convertToolParts_store S inp ps h)) = length (item_arrays h) \<and>
         (\<forall>b. b \<noteq> inp \<longrightarrow>
            item_arrays (convertToolParts_store S inp ps h) ! b = item_arrays h ! b) \<and>
         (\<forall>x \<in> set (items_at (convertToolParts_store S inp ps h) inp).
            \<forall>r. part_ref x = Some r \<longrightarrow> r < n)"
  using assms
proof (induction ps arbitrary: h)
  case Nil
  then show ?case by simp
next
  case (Cons p ps)
  show ?case
  proof (cases p)
    case (ToolApprovalResponsePart i b)
    show ?thesis using Cons.IH [OF Cons.prems] by (simp add: ToolApprovalResponsePart)
  next
    case (ToolResultPart cid nm out)
    let ?x = "StoredFunctionCallOutput cid (toToolOutputString S out)"
    let ?h1 = "push_item inp ?x h"
    have pre: "inp < length (item_arrays ?h1)"
      "\<forall>z \<in> set (items_at ?h1 inp). \<forall>r. part_ref z = Some r \<longrightarrow> r < n"
      using Cons.prems by (auto simp add: push_item_frame push_item_items)
    show ?thesis
      using Cons.IH [OF pre] Cons.prems(1)
      by (simp add: ToolResultPart push_item_load push_item_frame)
  qed
qed

lemma new_part_array_eq:
  "new_part_array h = (length (part_arrays h), h\<lparr>part_arrays := part_arrays h @ [[]]\<rparr>)"
  by (simp add: new_part_array_def)

lemma fresh_parts_facts:
  "items_at (h\<lparr>part_arrays := part_arrays h @ [[]]\<rparr>) inp = items_at h inp"
  "parts_at (h\<lparr>part_arrays := part_arrays h @ [[]]\<rparr>) (length (part_arrays h)) = []"
  by (simp_all add: items_at_def parts_at_def)

lemma fresh_parts_load:
  assumes "\<forall>x \<in> set (items_at h inp). \<forall>r. part_ref x = Some r \<longrightarrow> r < length (part_arrays h)"
  shows "load_items (h\<lparr>part_arrays := part_arrays h @ [[]]\<rparr>) inp = load_items h inp"
proof -
  have "\<And>x. x \<in> set (items_at h inp) \<Longrightarrow>
          load_item (h\<lparr>part_arrays := part_arrays h @ [[]]\<rparr>) x = load_item h x"
  proof (rule load_item_agree)
    fix x a assume "x \<in> set (items_at h inp)" and "part_ref x = Some a"
    then have "a < length (part_arrays h)" using assms by blast
    then show "parts_at (h\<lparr>part_arrays := part_arrays h @ [[]]\<rparr>) a = parts_at h a"
      by (simp add: parts_at_def nth_append)
  qed
  then show ?thesis by (simp add: load_items_def fresh_parts_facts)
qed

lemma convertMessage_store_sim:
  assumes "inp < length (item_arrays h)"
    and "\<forall>x \<in> set (items_at h inp). \<forall>r. part_ref x = Some r \<longrightarrow> r < length (part_arrays h)"
  shows "load_items (convertMessage_store S B inp m h) inp =
           convertMessage S B (load_items h inp) m \<and>
         length (item_arrays (convertMessage_store S B inp m h)) = length (item_arrays h) \<and>
         length (part_arrays h) \<le> length (part_arrays (convertMessage_store S B inp m h)) \<and>
         (\<forall>b. b \<noteq> inp \<longrightarrow>
            item_arrays (convertMessage_store S B inp m h) ! b = item_arrays h ! b) \<and>
         (\<forall>b < length (part_arrays h).
            part_arrays (convertMessage_store S B inp m h) ! b = part_arrays h ! b) \<and>
         (\<forall>x \<in> set (items_at (convertMessage_store S B inp m h) inp).
            \<forall>r. part_ref x = Some r \<longrightarrow>
                r < length (part_arrays (convertMessage_store S B inp m h)))"
proof (cases m)
  case (OtherMessage r)
  then show ?thesis using assms by simp
next
  case (ToolMessage ps)
  show ?thesis
    using convertToolParts_store_sim [OF assms, of S ps] by (simp add: ToolMessage)
next
  case (Message r c)
  show ?thesis
  proof (cases "r = System \<or> r = Developer")
    case True
    let ?text = "join_strings newline (text_parts (normalizeContentParts c))"
    show ?thesis
    proof (cases "?text = []")
      case True
      then show ?thesis using assms \<open>r = System \<or> r = Developer\<close> by (simp add: Message)
    next
      case False
      then show ?thesis
        using assms \<open>r = System \<or> r = Developer\<close>
        by (auto simp add: Message push_item_load push_item_frame push_item_items)
    qed
  next
    case False
    let ?cp = "length (part_arrays h)"
    let ?h1 = "h\<lparr>part_arrays := part_arrays h @ [[]]\<rparr>"
    let ?h2 = "convertParts_store B (r = Assistant) inp ?cp (normalizeContentParts c) ?h1"
    have alloc: "new_part_array h = (?cp, ?h1)"
      by (rule new_part_array_eq)
    have pre: "inp < length (item_arrays ?h1)" "?cp < length (part_arrays ?h1)"
      "\<forall>x \<in> set (items_at ?h1 inp). \<forall>a. part_ref x = Some a \<longrightarrow> a < ?cp"
      using assms by (simp_all add: fresh_parts_facts)
    note sim = convertParts_store_sim [OF pre, of B "r = Assistant" "normalizeContentParts c"]
    have run: "(load_items ?h2 inp, parts_at ?h2 ?cp) =
                 convertParts B (r = Assistant) (normalizeContentParts c) (load_items h inp, [])"
      using sim by (simp add: fresh_parts_load [OF assms(2)] fresh_parts_facts)
    have len_i: "length (item_arrays ?h2) = length (item_arrays h)"
      using sim by simp
    have len_p: "length (part_arrays ?h2) = Suc ?cp"
      using sim by simp
    have fr_i: "\<forall>b. b \<noteq> inp \<longrightarrow> item_arrays ?h2 ! b = item_arrays h ! b"
      using sim by simp
    have fr_p: "\<forall>b < ?cp. part_arrays ?h2 ! b = part_arrays h ! b"
      using sim by (simp add: nth_append)
    have refs: "\<forall>x \<in> set (items_at ?h2 inp). \<forall>a. part_ref x = Some a \<longrightarrow> a < ?cp"
      using sim by simp
    have step: "convertMessage_store S B inp m h =
                  (if length (parts_at ?h2 ?cp) > 0
                   then push_item inp (StoredMessage r (StoredParts ?cp)) ?h2 else ?h2)"
      using False by (simp add: Message alloc Let_def)
    obtain input' contentParts where res:
      "convertParts B (r = Assistant) (normalizeContentParts c) (load_items h inp, []) =
         (input', contentParts)"
      by (cases "convertParts B (r = Assistant) (normalizeContentParts c) (load_items h inp, [])")
    have l2: "load_items ?h2 inp = input'" and p2: "parts_at ?h2 ?cp = contentParts"
      using run res by simp_all
    have fun_step: "convertMessage S B (load_items h inp) m =
                      (if length contentParts > 0
                       then input' @ [InputMessage r (ContentParts contentParts)] else input')"
      using False by (simp add: Message res)
    show ?thesis
    proof (cases "length contentParts > 0")
      case True
      have inp2: "inp < length (item_arrays ?h2)" using assms(1) len_i by simp
      show ?thesis
        using True refs fr_i fr_p len_i len_p inp2
        by (auto simp add: step fun_step p2 l2 push_item_load [OF inp2] push_item_frame
                           push_item_items [OF inp2] less_Suc_eq)
    next
      case False
      show ?thesis
        using False refs fr_i fr_p len_i len_p
        by (auto simp add: step fun_step p2 l2 less_Suc_eq)
    qed
  qed
qed


lemma convertMessages_store_sim:
  assumes "inp < length (item_arrays h)"
    and "\<forall>x \<in> set (items_at h inp). \<forall>r. part_ref x = Some r \<longrightarrow> r < length (part_arrays h)"
  shows "load_items (convertMessages_store S B inp ms h) inp =
           convertMessages S B (load_items h inp) ms \<and>
         length (item_arrays (convertMessages_store S B inp ms h)) = length (item_arrays h) \<and>
         length (part_arrays h) \<le> length (part_arrays (convertMessages_store S B inp ms h)) \<and>
         (\<forall>b. b \<noteq> inp \<longrightarrow>
            item_arrays (convertMessages_store S B inp ms h) ! b = item_arrays h ! b) \<and>
         (\<forall>b < length (part_arrays h).
            part_arrays (convertMessages_store S B inp ms h) ! b = part_arrays h ! b) \<and>
         (\<forall>x \<in> set (items_at (convertMessages_store S B inp ms h) inp).
            \<forall>r. part_ref x = Some r \<longrightarrow>
                r < length (part_arrays (convertMessages_store S B inp ms h)))"
  using assms
proof (induction ms arbitrary: h)
  case Nil
  then show ?case by simp
next
  case (Cons m ms)
  let ?h1 = "convertMessage_store S B inp m h"
  note one = convertMessage_store_sim [OF Cons.prems, of S B m]
  have pre: "inp < length (item_arrays ?h1)"
    "\<forall>x \<in> set (items_at ?h1 inp). \<forall>r. part_ref x = Some r \<longrightarrow> r < length (part_arrays ?h1)"
    using one Cons.prems(1) by simp_all
  note rest = Cons.IH [OF pre]
  have "\<forall>b < length (part_arrays h).
          part_arrays (convertMessages_store S B inp ms ?h1) ! b = part_arrays h ! b"
  proof (intro allI impI)
    fix b assume b: "b < length (part_arrays h)"
    then have "b < length (part_arrays ?h1)" using one by simp
    then have "part_arrays (convertMessages_store S B inp ms ?h1) ! b = part_arrays ?h1 ! b"
      using rest by blast
    also have "\<dots> = part_arrays h ! b" using one b by blast
    finally show "part_arrays (convertMessages_store S B inp ms ?h1) ! b = part_arrays h ! b" .
  qed
  moreover have "length (part_arrays h) \<le> length (part_arrays (convertMessages_store S B inp ms ?h1))"
    using one rest by (meson le_trans)
  ultimately show ?case using one rest by simp
qed

lemma convertPromptToInput_store_sim:
  assumes "convertPromptToInput_store S B prompt h = (a, h')"
  shows "a = length (item_arrays h)"
    and "length (item_arrays h') = Suc (length (item_arrays h))"
    and "length (part_arrays h) \<le> length (part_arrays h')"
    and "\<forall>b < length (item_arrays h). item_arrays h' ! b = item_arrays h ! b"
    and "\<forall>b < length (part_arrays h). part_arrays h' ! b = part_arrays h ! b"
    and "load_items h' a = convertPromptToInput S B prompt"
    and "\<forall>x \<in> set (items_at h' a). \<forall>r. part_ref x = Some r \<longrightarrow> r < length (part_arrays h')"
proof -
  let ?inp = "length (item_arrays h)"
  let ?h1 = "h\<lparr>item_arrays := item_arrays h @ [[]]\<rparr>"
  have a: "a = ?inp" and h': "h' = convertMessages_store S B ?inp prompt ?h1"
    using assms by (auto simp add: convertPromptToInput_store_def new_item_array_def)
  have pre: "?inp < length (item_arrays ?h1)"
    "\<forall>x \<in> set (items_at ?h1 ?inp). \<forall>r. part_ref x = Some r \<longrightarrow> r < length (part_arrays ?h1)"
    by (simp_all add: items_at_def)
  note sim = convertMessages_store_sim [OF pre, of S B prompt]
  have empty: "load_items ?h1 ?inp = []"
    by (simp add: load_items_def items_at_def)
  show "a = length (item_arrays h)" by (rule a)
  show "length (item_arrays h') = Suc (length (item_arrays h))"
    using sim by (simp add: h')
  show "length (part_arrays h) \<le> length (part_arrays h')"
    using sim by (simp add: h')
  show "\<forall>b < length (item_arrays h). item_arrays h' ! b = item_arrays h ! b"
    using sim by (simp add: h' nth_append)
  show "\<forall>b < length (part_arrays h). part_arrays h' ! b = part_arrays h ! b"
    using sim by (simp add: h')
  show "load_items h' a = convertPromptToInput S B prompt"
    using sim by (simp add: h' a empty convertPromptToInput_def)
  show "\<forall>x \<in> set (items_at h' a). \<forall>r. part_ref x = Some r \<longrightarrow> r < length (part_arrays h')"
    using sim by (simp add: h' a)
qed

lemma load_items_stable:
  assumes "a < length (item_arrays h)"
    and "\<forall>x \<in> set (items_at h a). \<forall>r. part_ref x = Some r \<longrightarrow> r < length (part_arrays h)"
    and "length (item_arrays h) \<le> length (item_arrays h')"
    and "length (part_arrays h) \<le> length (part_arrays h')"
    and "\<forall>b < length (item_arrays h). item_arrays h' ! b = item_arrays h ! b"
    and "\<forall>b < length (part_arrays h). part_arrays h' ! b = part_arrays h ! b"
  shows "load_items h' a = load_items h a"
proof -
  have same: "items_at h' a = items_at h a"
    using assms(1,3,5) by (simp add: items_at_def)
  have "\<And>x. x \<in> set (items_at h a) \<Longrightarrow> load_item h' x = load_item h x"
  proof (rule load_item_agree)
    fix x r assume "x \<in> set (items_at h a)" and "part_ref x = Some r"
    then have "r < length (part_arrays h)" using assms(2) by blast
    then show "parts_at h' r = parts_at h r"
      using assms(4,6) by (simp add: parts_at_def)
  qed
  then show ?thesis by (simp add: load_items_def same)
qed

lemma two_calls:
  assumes "convertPromptToInput_store S B prompt h = (first, h1)"
    and "convertPromptToInput_store S B prompt h1 = (second, h2)"
  shows "load_items h1 first = load_items h2 second \<and>
         load_items h2 first = load_items h2 second \<and>
         first \<noteq> second \<and>
         load_items h2 second = convertPromptToInput S B prompt"
proof -
  note one = convertPromptToInput_store_sim [OF assms(1)]
  note two = convertPromptToInput_store_sim [OF assms(2)]
  have in1: "first < length (item_arrays h1)" using one(1,2) by simp
  have kept: "load_items h2 first = load_items h1 first"
    using load_items_stable [OF in1 one(7) _ two(3) two(4) two(5)] two(2) by simp
  have "first \<noteq> second" using in1 two(1) by simp
  then show ?thesis using kept one(6) two(6) by simp
qed

text \<open>
  Claim C8. The translation depends on the prompt alone. Call the translator on a
  prompt in any store, and call it again on the same prompt in the store the first call
  left behind: the sequence returned by the second call equals the sequence the first
  call returned, the two sequences are still equal after the second call (the second
  call creates its own array and leaves the first result untouched), and both are the
  value of \<open>convertPromptToInput\<close>, which no store enters.
\<close>

theorem convertPromptToInput_twice:
  "(case convertPromptToInput_store S B prompt h of
      (first, h1) \<Rightarrow>
        (case convertPromptToInput_store S B prompt h1 of
           (second, h2) \<Rightarrow>
             load_items h1 first = load_items h2 second \<and>
             load_items h2 first = load_items h2 second \<and>
             first \<noteq> second \<and>
             load_items h2 second = convertPromptToInput S B prompt))"
proof -
  obtain first h1 where c1: "convertPromptToInput_store S B prompt h = (first, h1)"
    by (cases "convertPromptToInput_store S B prompt h")
  obtain second h2 where c2: "convertPromptToInput_store S B prompt h1 = (second, h2)"
    by (cases "convertPromptToInput_store S B prompt h1")
  show ?thesis using two_calls [OF c1 c2] by (simp add: c1 c2)
qed

theorem convertPromptToInput_twice_witness:
  "convertPromptToInput_store (\<lambda>j. ''{}'') (\<lambda>b. [])
     [Message User (ContentArray [TextPart ''hi'']),
      ToolMessage [ToolResultPart ''call_1'' ''lookup'' (JsonOutput JNull)]]
     \<lparr> item_arrays = [[StoredReasoning ''earlier'']], part_arrays = [[InputText ''old'']] \<rparr> =
   (1, \<lparr> item_arrays = [[StoredReasoning ''earlier''],
                         [StoredMessage User (StoredParts 1),
                          StoredFunctionCallOutput ''call_1'' ''{}'']],
          part_arrays = [[InputText ''old''], [InputText ''hi'']] \<rparr>) \<and>
   convertPromptToInput_store (\<lambda>j. ''{}'') (\<lambda>b. [])
     [Message User (ContentArray [TextPart ''hi'']),
      ToolMessage [ToolResultPart ''call_1'' ''lookup'' (JsonOutput JNull)]]
     \<lparr> item_arrays = [[StoredReasoning ''earlier''],
                       [StoredMessage User (StoredParts 1),
                        StoredFunctionCallOutput ''call_1'' ''{}'']],
        part_arrays = [[InputText ''old''], [InputText ''hi'']] \<rparr> =
   (2, \<lparr> item_arrays = [[StoredReasoning ''earlier''],
                         [StoredMessage User (StoredParts 1),
                          StoredFunctionCallOutput ''call_1'' ''{}''],
                         [StoredMessage User (StoredParts 2),
                          StoredFunctionCallOutput ''call_1'' ''{}'']],
          part_arrays = [[InputText ''old''], [InputText ''hi''], [InputText ''hi'']] \<rparr>) \<and>
   load_items
     \<lparr> item_arrays = [[StoredReasoning ''earlier''],
                       [StoredMessage User (StoredParts 1),
                        StoredFunctionCallOutput ''call_1'' ''{}''],
                       [StoredMessage User (StoredParts 2),
                        StoredFunctionCallOutput ''call_1'' ''{}'']],
        part_arrays = [[InputText ''old''], [InputText ''hi''], [InputText ''hi'']] \<rparr> 2 =
   [InputMessage User (ContentParts [InputText ''hi'']), FunctionCallOutput ''call_1'' ''{}'']"
proof -
  let ?S = "\<lambda>j::json. ''{}''" and ?B = "\<lambda>b::8 word list. []::string"
  let ?p = "[Message User (ContentArray [TextPart ''hi'']),
             ToolMessage [ToolResultPart ''call_1'' ''lookup'' (JsonOutput JNull)]]"
  let ?h = "\<lparr> item_arrays = [[StoredReasoning ''earlier'']], part_arrays = [[InputText ''old'']] \<rparr>"
  let ?h1 = "\<lparr> item_arrays = [[StoredReasoning ''earlier''],
                       [StoredMessage User (StoredParts 1),
                        StoredFunctionCallOutput ''call_1'' ''{}'']],
        part_arrays = [[InputText ''old''], [InputText ''hi'']] \<rparr>"
  let ?h2 = "\<lparr> item_arrays = [[StoredReasoning ''earlier''],
                       [StoredMessage User (StoredParts 1),
                        StoredFunctionCallOutput ''call_1'' ''{}''],
                       [StoredMessage User (StoredParts 2),
                        StoredFunctionCallOutput ''call_1'' ''{}'']],
        part_arrays = [[InputText ''old''], [InputText ''hi''], [InputText ''hi'']] \<rparr>"
  have c1: "convertPromptToInput_store ?S ?B ?p ?h = (1, ?h1)"
    by (simp add: convertPromptToInput_store_def new_item_array_def new_part_array_def
                  push_item_def push_part_def parts_at_def normalizeContentParts_def)
  have c2: "convertPromptToInput_store ?S ?B ?p ?h1 = (2, ?h2)"
    by (simp add: convertPromptToInput_store_def new_item_array_def new_part_array_def
                  push_item_def push_part_def parts_at_def normalizeContentParts_def)
  have fn: "convertPromptToInput ?S ?B ?p =
              [InputMessage User (ContentParts [InputText ''hi'']), FunctionCallOutput ''call_1'' ''{}'']"
    by (simp add: convertPromptToInput_def normalizeContentParts_def)
  note twice = convertPromptToInput_twice [of ?S ?B ?p ?h, unfolded c1 prod.case c2 fn]
  show ?thesis
    using c1 c2 twice by blast
qed

subsection \<open>Tool mapping\<close>

lemma provider_iff: "is_provider_tool t = (\<not> is_function_tool t)"
  by (cases t) simp_all

text \<open>
  Claim C7. For every tool list: the result holds the function tools only, in their
  order, each as one vendor function record with the tool's name, description and
  input schema; the result is absent, not an empty list, when no function tool remains;
  a list with a tool that is not a function tool adds the "unsupported" warning for
  provider tools to the warnings and still returns; a list of function tools only, and
  an absent list, leave the warnings as they were.
\<close>

theorem mapTools_policy:
  "fst (mapTools (Some ts) ws) =
     (if filter is_function_tool ts = [] then None
      else Some (map to_openclaw_tool (filter is_function_tool ts))) \<and>
   (\<forall>t \<in> set (filter is_function_tool ts).
      \<exists>name description inputSchema.
        t = FunctionTool name description inputSchema \<and>
        to_openclaw_tool t = OpenclawFunction name description (Some inputSchema)) \<and>
   ((\<exists>t \<in> set ts. \<not> is_function_tool t) \<longrightarrow>
      snd (mapTools (Some ts) ws) =
        ws @ [Unsupported ''providerTools'' (Some ''OpenClaw responses only support function tools'')]) \<and>
   ((\<forall>t \<in> set ts. is_function_tool t) \<longrightarrow> snd (mapTools (Some ts) ws) = ws) \<and>
   mapTools None ws = (None, ws)"
proof -
  have fst_eq: "fst (mapTools (Some ts) ws) =
     (if filter is_function_tool ts = [] then None
      else Some (map to_openclaw_tool (filter is_function_tool ts)))"
    by (cases ts) (simp_all add: mapTools_def Let_def)
  have one_to_one: "\<forall>t \<in> set (filter is_function_tool ts).
      \<exists>name description inputSchema.
        t = FunctionTool name description inputSchema \<and>
        to_openclaw_tool t = OpenclawFunction name description (Some inputSchema)"
  proof
    fix t assume "t \<in> set (filter is_function_tool ts)"
    then have "is_function_tool t" by simp
    then show "\<exists>name description inputSchema.
        t = FunctionTool name description inputSchema \<and>
        to_openclaw_tool t = OpenclawFunction name description (Some inputSchema)"
      by (cases t) simp_all
  qed
  have warn: "(\<exists>t \<in> set ts. \<not> is_function_tool t) \<longrightarrow>
      snd (mapTools (Some ts) ws) =
        ws @ [Unsupported ''providerTools'' (Some ''OpenClaw responses only support function tools'')]"
  proof
    assume "\<exists>t \<in> set ts. \<not> is_function_tool t"
    then have "\<exists>t \<in> set ts. is_provider_tool t" by (simp add: provider_iff)
    then have "filter is_provider_tool ts \<noteq> []" by (simp add: filter_empty_conv)
    moreover from this have "ts \<noteq> []" by auto
    ultimately show "snd (mapTools (Some ts) ws) =
        ws @ [Unsupported ''providerTools'' (Some ''OpenClaw responses only support function tools'')]"
      by (simp add: mapTools_def Let_def)
  qed
  have quiet: "(\<forall>t \<in> set ts. is_function_tool t) \<longrightarrow> snd (mapTools (Some ts) ws) = ws"
  proof
    assume "\<forall>t \<in> set ts. is_function_tool t"
    then have "\<forall>t \<in> set ts. \<not> is_provider_tool t" by (simp add: provider_iff)
    then have "filter is_provider_tool ts = []" by (simp add: filter_empty_conv)
    then show "snd (mapTools (Some ts) ws) = ws"
      by (simp add: mapTools_def Let_def)
  qed
  have absent: "mapTools None ws = (None, ws)"
    by (simp add: mapTools_def)
  from fst_eq one_to_one warn quiet absent show ?thesis by blast
qed

theorem mapTools_policy_witness:
  "mapTools (Some [FunctionTool ''lookup'' (Some ''Look up'') (JObject []), ProviderTool ''openai.web_search'' ''web_search'' (JObject [])]) [] =
     (Some [OpenclawFunction ''lookup'' (Some ''Look up'') (Some (JObject []))],
      [Unsupported ''providerTools'' (Some ''OpenClaw responses only support function tools'')]) \<and>
   mapTools (Some [ProviderTool ''openai.web_search'' ''web_search'' (JObject [])]) [] =
     (None, [Unsupported ''providerTools'' (Some ''OpenClaw responses only support function tools'')]) \<and>
   mapTools (Some [FunctionTool ''lookup'' None (JObject [])]) [Unsupported ''seed'' None] =
     (Some [OpenclawFunction ''lookup'' None (Some (JObject []))], [Unsupported ''seed'' None])"
  using mapTools_policy [of "[FunctionTool ''lookup'' (Some ''Look up'') (JObject []), ProviderTool ''openai.web_search'' ''web_search'' (JObject [])]" "[]"]
        mapTools_policy [of "[ProviderTool ''openai.web_search'' ''web_search'' (JObject [])]" "[]"]
        mapTools_policy [of "[FunctionTool ''lookup'' None (JObject [])]" "[Unsupported ''seed'' None]"]
  by (simp add: prod_eq_iff)

subsection \<open>Stream reconstructor: the text segment\<close>

text \<open>
  Only a text delta touches \<^verbatim>\<open>activeTextId\<close>, and once it holds a non-empty id it
  is never assigned again: no further text-start is emitted and every text-delta
  carries that id.
\<close>

lemma transform_all_append:
  "transform_all env s (xs @ ys) =
     (case transform_all env s xs of
        (s', out) \<Rightarrow> (case transform_all env s' ys of (s'', outs) \<Rightarrow> (s'', out @ outs)))"
  by (induction xs arbitrary: s) (simp_all split: prod.splits)

lemma output_item_event_text:
  "activeTextId (fst (output_item_event env s item)) = activeTextId s \<and>
   (\<forall>p \<in> set (snd (output_item_event env s item)).
      part_type p \<noteq> ''text-start'' \<and> part_type p \<noteq> ''text-delta'' \<and> part_type p \<noteq> ''finish'')"
  by (cases item) (auto simp add: Let_def split: option.splits)

lemma transform_other_text:
  assumes "\<not> is_text_delta c"
  shows "activeTextId (fst (transform env s c)) = activeTextId s \<and>
         (\<forall>p \<in> set (snd (transform env s c)).
            part_type p \<noteq> ''text-start'' \<and> part_type p \<noteq> ''text-delta'')"
proof (cases c)
  case (Failure e rawValue)
  then show ?thesis by simp
next
  case (Success event rawValue)
  show ?thesis
  proof (cases event)
    case (OutputItemAdded n item)
    then show ?thesis
      using output_item_event_text [of env s item]
      by (auto simp add: Success split: prod.splits)
  next
    case (OutputItemDone n item)
    then show ?thesis
      using output_item_event_text [of env s item]
      by (auto simp add: Success split: prod.splits)
  next
    case (OutputTextDelta i oi ci d)
    then show ?thesis using assms by (simp add: Success)
  qed (simp_all add: Success)
qed

lemma transform_open_segment:
  assumes "activeTextId s = Some a" and "a \<noteq> []"
  shows "activeTextId (fst (transform env s c)) = Some a \<and>
         (\<forall>p \<in> set (snd (transform env s c)).
            part_type p \<noteq> ''text-start'' \<and> (\<forall>i d. p = TextDelta i d \<longrightarrow> i = a))"
proof (cases "is_text_delta c")
  case False
  then show ?thesis
    using transform_other_text [of c env s] assms by auto
next
  case True
  then obtain i oi ci d rawValue where "c = Success (OutputTextDelta i oi ci d) rawValue"
    by (cases c rule: is_text_delta.cases) simp_all
  then show ?thesis using assms by simp
qed

lemma transform_all_open_segment:
  assumes "activeTextId s = Some a" and "a \<noteq> []"
  shows "activeTextId (fst (transform_all env s cs)) = Some a \<and>
         (\<forall>p \<in> set (snd (transform_all env s cs)).
            part_type p \<noteq> ''text-start'' \<and> (\<forall>i d. p = TextDelta i d \<longrightarrow> i = a))"
  using assms
proof (induction cs arbitrary: s)
  case Nil
  then show ?case by simp
next
  case (Cons c cs)
  obtain s' out where step: "transform env s c = (s', out)" by (cases "transform env s c")
  obtain s'' outs where rest: "transform_all env s' cs = (s'', outs)"
    by (cases "transform_all env s' cs")
  have one: "activeTextId s' = Some a \<and>
         (\<forall>p \<in> set out. part_type p \<noteq> ''text-start'' \<and> (\<forall>i d. p = TextDelta i d \<longrightarrow> i = a))"
    using transform_open_segment [OF Cons.prems, of env c] step by simp
  then have "activeTextId s'' = Some a \<and>
         (\<forall>p \<in> set outs. part_type p \<noteq> ''text-start'' \<and> (\<forall>i d. p = TextDelta i d \<longrightarrow> i = a))"
    using Cons.IH [of s'] Cons.prems(2) rest by simp
  with one show ?case by (auto simp add: step rest)
qed

lemma transform_all_no_delta:
  assumes "\<forall>c \<in> set cs. \<not> is_text_delta c"
  shows "activeTextId (fst (transform_all env s cs)) = activeTextId s \<and>
         (\<forall>p \<in> set (snd (transform_all env s cs)).
            part_type p \<noteq> ''text-start'' \<and> part_type p \<noteq> ''text-delta'')"
  using assms
proof (induction cs arbitrary: s)
  case Nil
  then show ?case by simp
next
  case (Cons c cs)
  obtain s' out where step: "transform env s c = (s', out)" by (cases "transform env s c")
  obtain s'' outs where rest: "transform_all env s' cs = (s'', outs)"
    by (cases "transform_all env s' cs")
  have one: "activeTextId s' = activeTextId s \<and>
         (\<forall>p \<in> set out. part_type p \<noteq> ''text-start'' \<and> part_type p \<noteq> ''text-delta'')"
    using transform_other_text [of c env s] Cons.prems step by simp
  have "activeTextId s'' = activeTextId s' \<and>
         (\<forall>p \<in> set outs. part_type p \<noteq> ''text-start'' \<and> part_type p \<noteq> ''text-delta'')"
    using Cons.IH [of s'] Cons.prems rest by simp
  with one show ?case by (auto simp add: step rest)
qed

subsection \<open>Stream reconstructor: the finish event\<close>

text \<open>
  \<^verbatim>\<open>transform\<close> never emits a text-end or a finish event; only the two terminal
  cases assign \<^verbatim>\<open>usage\<close>, and \<^verbatim>\<open>flush\<close> emits the finish event from it.
\<close>

lemma output_item_event_quiet:
  "usage (fst (output_item_event env s item)) = usage s \<and>
   finishReason (fst (output_item_event env s item)) = finishReason s \<and>
   responseId (fst (output_item_event env s item)) = responseId s \<and>
   (\<forall>p \<in> set (snd (output_item_event env s item)).
      part_type p \<noteq> ''text-end'' \<and> part_type p \<noteq> ''finish'')"
  by (cases item) (auto simp add: Let_def split: option.splits)

lemma transform_never_ends:
  "\<forall>p \<in> set (snd (transform env s c)). part_type p \<noteq> ''text-end'' \<and> part_type p \<noteq> ''finish''"
proof (cases c)
  case (Failure e rawValue)
  then show ?thesis by simp
next
  case (Success event rawValue)
  show ?thesis
  proof (cases event)
    case (OutputItemAdded n item)
    then show ?thesis
      using output_item_event_quiet [of env s item]
      by (auto simp add: Success split: prod.splits)
  next
    case (OutputItemDone n item)
    then show ?thesis
      using output_item_event_quiet [of env s item]
      by (auto simp add: Success split: prod.splits)
  qed (auto simp add: Success split: option.splits)
qed

lemma transform_all_never_ends:
  "\<forall>p \<in> set (snd (transform_all env s cs)). part_type p \<noteq> ''text-end'' \<and> part_type p \<noteq> ''finish''"
proof (induction cs arbitrary: s)
  case Nil
  show ?case by simp
next
  case (Cons c cs)
  obtain s' out where step: "transform env s c = (s', out)" by (cases "transform env s c")
  obtain s'' outs where rest: "transform_all env s' cs = (s'', outs)"
    by (cases "transform_all env s' cs")
  show ?case
    using transform_never_ends [of env s c] Cons.IH [of s'] by (auto simp add: step rest)
qed

lemma transform_keeps_usage:
  assumes "\<not> is_terminal c"
  shows "usage (fst (transform env s c)) = usage s"
proof (cases c)
  case (Failure e rawValue)
  then show ?thesis by simp
next
  case (Success event rawValue)
  show ?thesis
  proof (cases event)
    case (OutputItemAdded n item)
    then show ?thesis
      using output_item_event_quiet [of env s item]
      by (auto simp add: Success split: prod.splits)
  next
    case (OutputItemDone n item)
    then show ?thesis
      using output_item_event_quiet [of env s item]
      by (auto simp add: Success split: prod.splits)
  next
    case (ResponseCompleted r)
    then show ?thesis using assms by (simp add: Success)
  next
    case (ResponseFailed r)
    then show ?thesis using assms by (simp add: Success)
  qed (auto simp add: Success split: option.splits)
qed

lemma transform_all_keeps_usage:
  assumes "\<forall>c \<in> set cs. \<not> is_terminal c"
  shows "usage (fst (transform_all env s cs)) = usage s"
  using assms
proof (induction cs arbitrary: s)
  case Nil
  show ?case by simp
next
  case (Cons c cs)
  obtain s' out where step: "transform env s c = (s', out)" by (cases "transform env s c")
  obtain s'' outs where rest: "transform_all env s' cs = (s'', outs)"
    by (cases "transform_all env s' cs")
  have "usage s' = usage s"
    using transform_keeps_usage [of c env s] Cons.prems step by simp
  moreover have "usage s'' = usage s'"
    using Cons.IH [of s'] Cons.prems rest by simp
  ultimately show ?case by (simp add: step rest)
qed

text \<open>Without a terminal event the stream has no finish event.\<close>

lemma no_terminal_no_finish:
  assumes "\<forall>c \<in> set chunks. \<not> is_terminal c"
  shows "\<forall>p \<in> set (doStream env ws chunks). part_type p \<noteq> ''finish''"
proof -
  obtain s out where run: "transform_all env initial_state chunks = (s, out)"
    by (cases "transform_all env initial_state chunks")
  have "usage s = None"
    using transform_all_keeps_usage [OF assms, of env initial_state] run
    by (simp add: initial_state_def)
  then have "\<forall>p \<in> set (flush env s). part_type p \<noteq> ''finish''"
    by (auto simp add: flush_def split: option.splits)
  moreover have "\<forall>p \<in> set out. part_type p \<noteq> ''finish''"
    using transform_all_never_ends [of env initial_state chunks] run by simp
  ultimately show ?thesis by (auto simp add: doStream_def run)
qed

text \<open>
  With a terminal event the stream ends with its only finish event, which carries the
  usage of the last terminal event.
\<close>

lemma terminal_usage:
  assumes "is_terminal c"
  shows "\<exists>r rawValue. (c = Success (ResponseCompleted r) rawValue \<or>
                        c = Success (ResponseFailed r) rawValue) \<and>
                       usage (fst (transform env s c)) = Some (mapUsage (resp_usage r))"
  using assms by (cases c rule: is_terminal.cases) simp_all

lemma terminal_one_finish:
  assumes "chunks = pre @ c # post" and "is_terminal c" and "\<forall>x \<in> set post. \<not> is_terminal x"
  shows "\<exists>body u f m. doStream env ws chunks = StreamStart ws # body @ [Finish u f m] \<and>
           (\<forall>p \<in> set body. part_type p \<noteq> ''finish'') \<and>
           usage (fst (transform env (fst (transform_all env initial_state pre)) c)) = Some u"
proof -
  obtain s1 o1 where r1: "transform_all env initial_state pre = (s1, o1)"
    by (cases "transform_all env initial_state pre")
  obtain s2 o2 where r2: "transform env s1 c = (s2, o2)" by (cases "transform env s1 c")
  obtain s3 o3 where r3: "transform_all env s2 post = (s3, o3)"
    by (cases "transform_all env s2 post")
  obtain u where u: "usage s2 = Some u"
    using terminal_usage [OF assms(2), of env s1] r2 by auto
  have "usage s3 = Some u"
    using transform_all_keeps_usage [OF assms(3), of env s2] r3 u by simp
  then obtain f m where fl:
    "flush env s3 = (case activeTextId s3 of Some a \<Rightarrow> (if a \<noteq> [] then [TextEnd a] else []) | None \<Rightarrow> [])
                    @ [Finish u f m]"
    by (simp add: flush_def)
  have run: "transform_all env initial_state chunks = (s3, o1 @ o2 @ o3)"
    by (simp add: assms(1) transform_all_append r1 r2 r3)
  let ?body = "o1 @ o2 @ o3 @
     (case activeTextId s3 of Some a \<Rightarrow> (if a \<noteq> [] then [TextEnd a] else []) | None \<Rightarrow> [])"
  have "doStream env ws chunks = StreamStart ws # ?body @ [Finish u f m]"
    by (simp add: doStream_def run fl)
  moreover have "\<forall>p \<in> set ?body. part_type p \<noteq> ''finish''"
    using transform_all_never_ends [of env initial_state pre]
          transform_never_ends [of env s1 c]
          transform_all_never_ends [of env s2 post]
    by (auto simp add: r1 r2 r3 split: option.splits if_splits)
  moreover have "usage (fst (transform env (fst (transform_all env initial_state pre)) c)) = Some u"
    by (simp add: r1 r2 u)
  ultimately show ?thesis by blast
qed

subsection \<open>Stream reconstructor: one text segment\<close>

text \<open>Without a text delta the stream has no text event at all.\<close>

lemma no_delta_no_text:
  assumes "\<forall>c \<in> set chunks. \<not> is_text_delta c"
  shows "\<forall>p \<in> set (doStream env ws chunks).
           part_type p \<noteq> ''text-start'' \<and> part_type p \<noteq> ''text-delta'' \<and>
           part_type p \<noteq> ''text-end''"
proof -
  obtain s out where run: "transform_all env initial_state chunks = (s, out)"
    by (cases "transform_all env initial_state chunks")
  have "activeTextId s = None"
    using transform_all_no_delta [OF assms, of env initial_state] run
    by (simp add: initial_state_def)
  then have "\<forall>p \<in> set (flush env s). part_type p = ''finish''"
    by (auto simp add: flush_def split: option.splits)
  moreover have "\<forall>p \<in> set out. part_type p \<noteq> ''text-start'' \<and> part_type p \<noteq> ''text-delta''"
    using transform_all_no_delta [OF assms, of env initial_state] run by simp
  moreover have "\<forall>p \<in> set out. part_type p \<noteq> ''text-end''"
    using transform_all_never_ends [of env initial_state chunks] run by simp
  ultimately show ?thesis by (auto simp add: doStream_def run)
qed

text \<open>
  When the first text delta has a non-empty item id, the stream has one text segment:
  one text-start with that id, text-deltas that all carry it, and one text-end with it
  after them, followed by the finish event at most.
\<close>

lemma first_delta_opens_the_segment:
  assumes "chunks = pre @ Success (OutputTextDelta a oi ci d) rawValue # post"
    and "\<forall>c \<in> set pre. \<not> is_text_delta c"
    and "a \<noteq> []"
  shows "\<exists>before after fin.
           doStream env ws chunks =
             StreamStart ws # before @ [TextStart a, TextDelta a d] @ after @ TextEnd a # fin \<and>
           (\<forall>p \<in> set before. part_type p \<noteq> ''text-start'' \<and> part_type p \<noteq> ''text-delta'' \<and>
                              part_type p \<noteq> ''text-end'') \<and>
           (\<forall>p \<in> set after. part_type p \<noteq> ''text-start'' \<and> part_type p \<noteq> ''text-end'' \<and>
                             (\<forall>i d'. p = TextDelta i d' \<longrightarrow> i = a)) \<and>
           (\<forall>p \<in> set fin. part_type p = ''finish'')"
proof -
  obtain s1 o1 where r1: "transform_all env initial_state pre = (s1, o1)"
    by (cases "transform_all env initial_state pre")
  have closed: "activeTextId s1 = None"
    using transform_all_no_delta [OF assms(2), of env initial_state] r1
    by (simp add: initial_state_def)
  have o1: "\<forall>p \<in> set o1. part_type p \<noteq> ''text-start'' \<and> part_type p \<noteq> ''text-delta'' \<and>
                          part_type p \<noteq> ''text-end''"
    using transform_all_no_delta [OF assms(2), of env initial_state]
          transform_all_never_ends [of env initial_state pre] r1 by simp
  let ?echo = "if includeRawChunks env then [RawChunk rawValue] else []"
  let ?s2 = "s1\<lparr>activeTextId := Some a\<rparr>"
  have r2: "transform env s1 (Success (OutputTextDelta a oi ci d) rawValue) =
              (?s2, ?echo @ [TextStart a, TextDelta a d])"
    using closed by simp
  obtain s3 o3 where r3: "transform_all env ?s2 post = (s3, o3)"
    by (cases "transform_all env ?s2 post")
  have opened: "activeTextId ?s2 = Some a" by simp
  have s3: "activeTextId s3 = Some a"
    using transform_all_open_segment [OF opened assms(3), of env post] r3 by simp
  have o3: "\<forall>p \<in> set o3. part_type p \<noteq> ''text-start'' \<and> part_type p \<noteq> ''text-end'' \<and>
                          (\<forall>i d'. p = TextDelta i d' \<longrightarrow> i = a)"
    using transform_all_open_segment [OF opened assms(3), of env post]
          transform_all_never_ends [of env ?s2 post] r3 by simp
  have "\<exists>fin. flush env s3 = TextEnd a # fin \<and> (\<forall>p \<in> set fin. part_type p = ''finish'')"
    using s3 assms(3) by (cases "usage s3") (simp_all add: flush_def)
  then obtain fin where fl: "flush env s3 = TextEnd a # fin"
    and fin: "\<forall>p \<in> set fin. part_type p = ''finish''"
    by blast
  have run: "transform_all env initial_state chunks =
               (s3, o1 @ (?echo @ [TextStart a, TextDelta a d]) @ o3)"
    using r1 r2 r3 by (simp add: assms(1) transform_all_append)
  have "doStream env ws chunks =
          StreamStart ws # (o1 @ ?echo) @ [TextStart a, TextDelta a d] @ o3 @ TextEnd a # fin"
    by (simp add: doStream_def run fl)
  moreover have "\<forall>p \<in> set (o1 @ ?echo). part_type p \<noteq> ''text-start'' \<and>
                    part_type p \<noteq> ''text-delta'' \<and> part_type p \<noteq> ''text-end''"
    using o1 by auto
  ultimately show ?thesis using o3 fin by blast
qed

subsection \<open>Stream reconstructor: chunks that fail validation\<close>

text \<open>
  A chunk that fails validation yields the error event in the stream, and the chunks
  after it are still transformed.
\<close>

lemma failure_emits_error:
  "\<exists>before after. doStream env ws (pre @ Failure err rawValue # post) =
                     StreamStart ws # before @ ErrorPart err # after"
proof -
  obtain s1 o1 where r1: "transform_all env initial_state pre = (s1, o1)"
    by (cases "transform_all env initial_state pre")
  let ?s2 = "s1\<lparr>finishReason := Some \<lparr> unified = ''error'', raw = ''error'' \<rparr>\<rparr>"
  obtain s3 o3 where r3: "transform_all env ?s2 post = (s3, o3)"
    by (cases "transform_all env ?s2 post")
  have "doStream env ws (pre @ Failure err rawValue # post) =
          StreamStart ws # (o1 @ (if includeRawChunks env then [RawChunk rawValue] else [])) @
          ErrorPart err # (o3 @ flush env s3)"
    by (simp add: doStream_def transform_all_append r1 r3)
  then show ?thesis by blast
qed

text \<open>
  The forced finish reason survives the chunks that are not terminal events: when no
  terminal event follows the failed chunk, a finish event reports "error".
\<close>

lemma transform_keeps_error:
  assumes "\<not> is_terminal c"
    and "finishReason s = Some \<lparr> unified = ''error'', raw = ''error'' \<rparr>"
  shows "finishReason (fst (transform env s c)) = Some \<lparr> unified = ''error'', raw = ''error'' \<rparr>"
proof (cases c)
  case (Failure e rawValue)
  then show ?thesis by simp
next
  case (Success event rawValue)
  show ?thesis
  proof (cases event)
    case (OutputItemAdded n item)
    then show ?thesis
      using output_item_event_quiet [of env s item] assms(2)
      by (auto simp add: Success split: prod.splits)
  next
    case (OutputItemDone n item)
    then show ?thesis
      using output_item_event_quiet [of env s item] assms(2)
      by (auto simp add: Success split: prod.splits)
  next
    case (ResponseCompleted r)
    then show ?thesis using assms(1) by (simp add: Success)
  next
    case (ResponseFailed r)
    then show ?thesis using assms(1) by (simp add: Success)
  qed (auto simp add: Success assms(2) split: option.splits)
qed

lemma transform_all_keeps_error:
  assumes "\<forall>c \<in> set cs. \<not> is_terminal c"
    and "finishReason s = Some \<lparr> unified = ''error'', raw = ''error'' \<rparr>"
  shows "finishReason (fst (transform_all env s cs)) = Some \<lparr> unified = ''error'', raw = ''error'' \<rparr>"
  using assms
proof (induction cs arbitrary: s)
  case Nil
  then show ?case by simp
next
  case (Cons c cs)
  obtain s' out where step: "transform env s c = (s', out)" by (cases "transform env s c")
  obtain s'' outs where rest: "transform_all env s' cs = (s'', outs)"
    by (cases "transform_all env s' cs")
  have "finishReason s' = Some \<lparr> unified = ''error'', raw = ''error'' \<rparr>"
    using transform_keeps_error [of c s env] Cons.prems step by simp
  then have "finishReason s'' = Some \<lparr> unified = ''error'', raw = ''error'' \<rparr>"
    using Cons.IH [of s'] Cons.prems(1) rest by simp
  then show ?case by (simp add: step rest)
qed

lemma late_failure_forces_error:
  assumes "\<forall>c \<in> set post. \<not> is_terminal c"
    and "Finish u f m \<in> set (doStream env ws (pre @ Failure err rawValue # post))"
  shows "f = \<lparr> unified = ''error'', raw = ''error'' \<rparr>"
proof -
  obtain s1 o1 where r1: "transform_all env initial_state pre = (s1, o1)"
    by (cases "transform_all env initial_state pre")
  let ?s2 = "s1\<lparr>finishReason := Some \<lparr> unified = ''error'', raw = ''error'' \<rparr>\<rparr>"
  obtain s3 o3 where r3: "transform_all env ?s2 post = (s3, o3)"
    by (cases "transform_all env ?s2 post")
  have forced: "finishReason s3 = Some \<lparr> unified = ''error'', raw = ''error'' \<rparr>"
    using transform_all_keeps_error [OF assms(1), of ?s2 env] r3 by simp
  obtain out where run:
    "transform_all env initial_state (pre @ Failure err rawValue # post) = (s3, out)"
    by (simp add: transform_all_append r1 r3)
  have "\<forall>p \<in> set out. part_type p \<noteq> ''finish''"
    using transform_all_never_ends [of env initial_state "pre @ Failure err rawValue # post"] run
    by simp
  then have "Finish u f m \<notin> set out" by force
  then have "Finish u f m \<in> set (flush env s3)"
    using assms(2) by (simp add: doStream_def run)
  then show ?thesis
    using forced by (auto simp add: flush_def split: option.splits if_splits)
qed

subsection \<open>The start of the stream\<close>

text \<open>
  Claim C9. For every streaming call the normalized stream begins with the
  stream-start event that carries the warnings, before anything the vendor events
  produce; with no vendor event at all the stream is that event alone.
\<close>

theorem doStream_first_event:
  "(\<exists>rest. doStream env ws chunks = StreamStart ws # rest) \<and>
   doStream env ws [] = [StreamStart ws]"
  by (simp add: doStream_def initial_state_def flush_def)

subsection \<open>A text response, start to finish\<close>

text \<open>
  Claim C1, as stated, at a concrete input: when the caller asked for raw chunks, the
  five vendor events (created, three text deltas of one item, completed) yield a raw
  event before the events of each chunk, thirteen events in all.
\<close>

theorem raw_chunks_scenario:
  "map part_type
     (doStream \<lparr> providerName = ''openclaw.responses'', includeRawChunks = True, responseHeaders = None \<rparr> []
        [Success (ResponseCreated
                   \<lparr> resp_id = ''resp_1'', created_at = 1700000000, status = ''in_progress'',
                     model = ''openclaw:main'', resp_output = [],
                     resp_usage = \<lparr> input_tokens = 0, output_tokens = 0, total_tokens = 0 \<rparr>,
                     resp_error = None \<rparr>) JNull,
         Success (OutputTextDelta ''msg_1'' 0 0 ''Hel'') JNull,
         Success (OutputTextDelta ''msg_1'' 0 0 ''lo '') JNull,
         Success (OutputTextDelta ''msg_1'' 0 0 ''you'') JNull,
         Success (ResponseCompleted
                   \<lparr> resp_id = ''resp_1'', created_at = 1700000000, status = ''completed'',
                     model = ''openclaw:main'', resp_output = [],
                     resp_usage = \<lparr> input_tokens = 3, output_tokens = 5, total_tokens = 8 \<rparr>,
                     resp_error = None \<rparr>) JNull]) =
   [''stream-start'', ''raw'', ''response-metadata'', ''raw'', ''text-start'', ''text-delta'',
    ''raw'', ''text-delta'', ''raw'', ''text-delta'', ''raw'', ''text-end'', ''finish'']"
  by (simp add: doStream_def initial_state_def flush_def)

text \<open>
  Claim C1, amended. When raw chunks were not asked for and the item id is not the
  empty string, the five vendor events (created, three text deltas with that item id,
  completed), all valid, yield exactly: the stream-start, one response-metadata, one
  text-start, the three text-deltas with the vendor's deltas in order, one text-end and
  one finish, and nothing else.
\<close>

theorem text_stream_scenario:
  assumes "\<not> includeRawChunks env" and "item_id \<noteq> []"
  shows "doStream env ws
           [Success (ResponseCreated r) raw1,
            Success (OutputTextDelta item_id oi1 ci1 d1) raw2,
            Success (OutputTextDelta item_id oi2 ci2 d2) raw3,
            Success (OutputTextDelta item_id oi3 ci3 d3) raw4,
            Success (ResponseCompleted r') raw5] =
         [StreamStart ws,
          ResponseMetadata (resp_id r) (created_at r * 1000) (model r) (responseHeaders env),
          TextStart item_id,
          TextDelta item_id d1, TextDelta item_id d2, TextDelta item_id d3,
          TextEnd item_id,
          Finish (mapUsage (resp_usage r')) (mapFinishReason (status r') False)
            (if resp_id r \<noteq> [] then Some (ProviderMetadata (providerName env) ''responseId'' (resp_id r))
             else None)]"
  using assms by (simp add: doStream_def initial_state_def flush_def)

theorem text_stream_scenario_witness:
  "\<not> includeRawChunks \<lparr> providerName = ''openclaw.responses'', includeRawChunks = False, responseHeaders = None \<rparr> \<and>
   ''msg_1'' \<noteq> [] \<and>
   map part_type
     (doStream \<lparr> providerName = ''openclaw.responses'', includeRawChunks = False, responseHeaders = None \<rparr> []
        [Success (ResponseCreated
                   \<lparr> resp_id = ''resp_1'', created_at = 1700000000, status = ''in_progress'',
                     model = ''openclaw:main'', resp_output = [],
                     resp_usage = \<lparr> input_tokens = 0, output_tokens = 0, total_tokens = 0 \<rparr>,
                     resp_error = None \<rparr>) JNull,
         Success (OutputTextDelta ''msg_1'' 0 0 ''Hel'') JNull,
         Success (OutputTextDelta ''msg_1'' 0 0 ''lo '') JNull,
         Success (OutputTextDelta ''msg_1'' 0 0 ''you'') JNull,
         Success (ResponseCompleted
                   \<lparr> resp_id = ''resp_1'', created_at = 1700000000, status = ''completed'',
                     model = ''openclaw:main'', resp_output = [],
                     resp_usage = \<lparr> input_tokens = 3, output_tokens = 5, total_tokens = 8 \<rparr>,
                     resp_error = None \<rparr>) JNull]) =
   [''stream-start'', ''response-metadata'', ''text-start'', ''text-delta'', ''text-delta'',
    ''text-delta'', ''text-end'', ''finish'']"
  using text_stream_scenario
          [of "\<lparr> providerName = ''openclaw.responses'', includeRawChunks = False, responseHeaders = None \<rparr>"
              "''msg_1''" "[]"
              "\<lparr> resp_id = ''resp_1'', created_at = 1700000000, status = ''in_progress'',
                     model = ''openclaw:main'', resp_output = [],
                     resp_usage = \<lparr> input_tokens = 0, output_tokens = 0, total_tokens = 0 \<rparr>,
                     resp_error = None \<rparr>" JNull 0 0 "''Hel''" JNull 0 0 "''lo ''" JNull 0 0 "''you''" JNull
              "\<lparr> resp_id = ''resp_1'', created_at = 1700000000, status = ''completed'',
                     model = ''openclaw:main'', resp_output = [],
                     resp_usage = \<lparr> input_tokens = 3, output_tokens = 5, total_tokens = 8 \<rparr>,
                     resp_error = None \<rparr>" JNull]
  by simp

subsection \<open>Text segments whose item id is the empty string\<close>

text \<open>
  Claim C3 at a concrete input: one valid text delta whose item id is the empty
  string, then the end of the stream. The segment is opened by a text-start, and
  \<open>flush\<close> emits no text-end for it: the test of \<^verbatim>\<open>activeTextId\<close> is a truthiness
  test, and the empty string fails it.
\<close>

theorem empty_item_id_segment_not_closed:
  "doStream \<lparr> providerName = ''openclaw.responses'', includeRawChunks = False, responseHeaders = None \<rparr> []
     [Success (OutputTextDelta [] 0 0 ''Hello'') JNull] =
   [StreamStart [], TextStart [], TextDelta [] ''Hello'']"
  by (simp add: doStream_def initial_state_def flush_def)

text \<open>
  Claim C10 at a concrete input: two valid text deltas, the first with the empty
  string as item id. The second delta finds \<^verbatim>\<open>activeTextId\<close> falsy, so a second
  text-start is emitted and the second text-delta carries the second item id.
\<close>

theorem empty_item_id_two_text_starts:
  "doStream \<lparr> providerName = ''openclaw.responses'', includeRawChunks = False, responseHeaders = None \<rparr> []
     [Success (OutputTextDelta [] 0 0 ''Hel'') JNull,
      Success (OutputTextDelta ''msg_2'' 0 0 ''lo'') JNull] =
   [StreamStart [], TextStart [], TextDelta [] ''Hel'',
    TextStart ''msg_2'', TextDelta ''msg_2'' ''lo'', TextEnd ''msg_2'']"
  by (simp add: doStream_def initial_state_def flush_def)

subsection \<open>A chunk that fails validation\<close>

text \<open>
  Claim C4 at a concrete input: a chunk that fails validation, then a valid
  \<^verbatim>\<open>response.completed\<close> with status "completed". The error event is emitted and the
  stream goes on, but the terminal event assigns the finish reason again, and the finish
  event reports "stop".
\<close>

theorem invalid_chunk_then_completed:
  "doStream \<lparr> providerName = ''openclaw.responses'', includeRawChunks = False, responseHeaders = None \<rparr> []
     [Failure ''invalid chunk'' JNull,
      Success (ResponseCompleted
                 \<lparr> resp_id = ''resp_1'', created_at = 1700000000, status = ''completed'',
                   model = ''openclaw:main'', resp_output = [],
                   resp_usage = \<lparr> input_tokens = 3, output_tokens = 5, total_tokens = 8 \<rparr>,
                   resp_error = None \<rparr>) JNull] =
   [StreamStart [], ErrorPart ''invalid chunk'',
    Finish (mapUsage \<lparr> input_tokens = 3, output_tokens = 5, total_tokens = 8 \<rparr>)
      \<lparr> unified = ''stop'', raw = ''completed'' \<rparr> None]"
  by (simp add: doStream_def initial_state_def flush_def mapFinishReason_def)

end
